theory Spec2Isabelle
  imports Complex_Main "HOL-Library.Sublist" "HOL-Library.Word"
begin

section \<open>JavaScript values\<close>

text \<open>
  A JavaScript number is a double: a finite value, NaN or one of the two infinities.
  Finite values are carried as exact reals; the functions below only test integrality,
  compare against small constants and double a value. No quotient is computed on them:
  the division of train-rnn.js is taken from its environment.
\<close>

datatype jsnum = NaN | PosInfinity | NegInfinity | Finite real

datatype jsval =
    JUndefined
  | JNull
  | JBoolean bool
  | JString string
  | JNumber jsnum
  | JObject

text \<open>\<^verbatim>\<open>Number.isInteger(v)\<close>: a finite number without fractional part; false for every
  value that is not of type number.\<close>

fun Number_isInteger :: "jsval \<Rightarrow> bool" where
  "Number_isInteger (JNumber (Finite r)) = (of_int \<lfloor>r\<rfloor> = r)"
| "Number_isInteger _ = False"

text \<open>\<^verbatim>\<open>x > c\<close> and \<^verbatim>\<open>x < c\<close> for a number \<open>x\<close> and a finite constant \<open>c\<close>:
  every comparison with NaN is false.\<close>

fun num_gt :: "jsnum \<Rightarrow> real \<Rightarrow> bool" where
  "num_gt (Finite r) c = (c < r)"
| "num_gt PosInfinity c = True"
| "num_gt NegInfinity c = False"
| "num_gt NaN c = False"

fun num_lt :: "jsnum \<Rightarrow> real \<Rightarrow> bool" where
  "num_lt (Finite r) c = (r < c)"
| "num_lt PosInfinity c = False"
| "num_lt NegInfinity c = True"
| "num_lt NaN c = False"

text \<open>\<^verbatim>\<open>Number.isInteger(v) && v > c\<close>. The \<^verbatim>\<open>&&\<close> evaluates the comparison only when
  \<open>v\<close> is an integral number, so no coercion of strings, null or undefined takes place.\<close>

fun isInteger_and_gt :: "jsval \<Rightarrow> real \<Rightarrow> bool" where
  "isInteger_and_gt (JNumber n) c = (Number_isInteger (JNumber n) \<and> num_gt n c)"
| "isInteger_and_gt v c = False"

text \<open>A template literal is kept as its pieces: the literal text and the substituted values.\<close>

datatype piece = Lit string | Subst jsval

datatype error =
    Error "piece list"
  | ValueError string

section \<open>The layers API used by the deep Q-network\<close>

text \<open>
  The network is assembled from layers of the TensorFlow.js library. Of that library the
  development keeps what the repository's code and tests observe: the configuration each
  layer is created with, the list of layers of a sequential model, and the symbolic shapes
  of its input and output. A shape is a list of dimensions, \<open>None\<close> standing for the
  batch dimension \<^verbatim>\<open>null\<close>. The shape rules are those of the library's layers: a
  convolution with the default \<^verbatim>\<open>valid\<close> padding, \<^verbatim>\<open>flatten\<close> and \<^verbatim>\<open>dense\<close>, and the
  refusal of a layer whose output would have a negative dimension. The allocation of
  weight tensors inside the library is not represented.
\<close>

type_synonym shape = "real option list"

datatype layer =
    Conv2d (filters: real) (kernelSize: real) (strides: real)
           (activation: "string option") (inputShape: "real list option")
  | Flatten
  | Dense (units: real) (dense_activation: "string option")

record sequential =
  layers :: "layer list"
  inputs :: "shape list"
  outputs :: "shape list"

definition convOutputLength :: "real \<Rightarrow> real \<Rightarrow> real \<Rightarrow> real" where
  "convOutputLength inputLength filterSize stride =
     of_int \<lfloor>((inputLength - filterSize + 1) + stride - 1) / stride\<rfloor>"

fun computeOutputShape :: "layer \<Rightarrow> shape \<Rightarrow> error + shape" where
  "computeOutputShape (Conv2d f k s a i) [b, hh, ww, c] =
     Inr [b, map_option (\<lambda>d. convOutputLength d k s) hh,
             map_option (\<lambda>d. convOutputLength d k s) ww, Some f]"
| "computeOutputShape (Conv2d f k s a i) sh = Inl (ValueError ''conv2d expects ndim 4'')"
| "computeOutputShape Flatten (b # d1 # d2 # ds) =
     (if list_all (\<lambda>d. d \<noteq> None) (d1 # d2 # ds)
      then Inr [b, Some (prod_list (map the (d1 # d2 # ds)))]
      else Inl (ValueError ''flatten expects a fully defined input shape''))"
| "computeOutputShape Flatten sh = Inl (ValueError ''flatten expects min_ndim 3'')"
| "computeOutputShape (Dense u a) (d1 # d2 # ds) =
     Inr (butlast (d1 # d2 # ds) @ [Some u])"
| "computeOutputShape (Dense u a) sh = Inl (ValueError ''dense expects min_ndim 2'')"

definition tf_sequential :: sequential where
  "tf_sequential = \<lparr>layers = [], inputs = [], outputs = []\<rparr>"

text \<open>\<^verbatim>\<open>model.add(layer)\<close>: the first layer must carry an input shape, to which the batch
  dimension is prepended; every later layer is applied to the current output. In both
  cases the library then checks the shape of the layer's output and refuses the layer when
  one of its dimensions is negative.\<close>

definition firstLayerInput :: "layer \<Rightarrow> shape option" where
  "firstLayerInput l =
     (case l of
        Conv2d f k s a (Some sh) \<Rightarrow> Some (None # map Some sh)
      | _ \<Rightarrow> None)"

definition hasNegativeDimension :: "shape \<Rightarrow> bool" where
  "hasNegativeDimension sh = list_ex (\<lambda>d. case d of None \<Rightarrow> False | Some x \<Rightarrow> x < 0) sh"

definition checkShape :: "shape \<Rightarrow> error option" where
  "checkShape out =
     (if hasNegativeDimension out
      then Some (ValueError ''Negative dimension size caused by adding layer'')
      else None)"

definition add :: "sequential \<Rightarrow> layer \<Rightarrow> error + sequential" where
  "add model l =
     (if layers model = [] then
        (case firstLayerInput l of
           None \<Rightarrow> Inl (ValueError ''The first layer in a Sequential model must get an inputShape'')
         | Some inp \<Rightarrow>
             (case computeOutputShape l inp of
                Inl e \<Rightarrow> Inl e
              | Inr out \<Rightarrow>
                  (case checkShape out of
                     Some e \<Rightarrow> Inl e
                   | None \<Rightarrow> Inr \<lparr>layers = [l], inputs = [inp], outputs = [out]\<rparr>)))
      else
        (case outputs model of
           [cur] \<Rightarrow>
             (case computeOutputShape l cur of
                Inl e \<Rightarrow> Inl e
              | Inr out \<Rightarrow>
                  (case checkShape out of
                     Some e \<Rightarrow> Inl e
                   | None \<Rightarrow> Inr (model\<lparr>layers := layers model @ [l], outputs := [out]\<rparr>)))
         | _ \<Rightarrow> Inl (ValueError ''model has no single output'')))"

definition andThen :: "error + 'a \<Rightarrow> ('a \<Rightarrow> error + 'b) \<Rightarrow> error + 'b" where
  "andThen r f = (case r of Inl e \<Rightarrow> Inl e | Inr x \<Rightarrow> f x)"

section \<open>snake-dqn/dqn.js\<close>

text \<open>The four argument checks of \<^verbatim>\<open>createDeepQNetwork\<close>, in the order of the source. The
  message of the third check substitutes \<open>w\<close>, as the source does.\<close>

definition checkArguments :: "jsval \<Rightarrow> jsval \<Rightarrow> jsval \<Rightarrow> jsval \<Rightarrow> error option" where
  "checkArguments h w stateFrames numActions =
     (if \<not> isInteger_and_gt h 0 then
        Some (Error [Lit ''Expected height to be a positive integer, but got '', Subst h])
      else if \<not> isInteger_and_gt w 0 then
        Some (Error [Lit ''Expected width to be a positive integer, but got '', Subst w])
      else if \<not> isInteger_and_gt stateFrames 0 then
        Some (Error [Lit ''Expected stateFrames to be a positive integer, but got '', Subst w])
      else if \<not> isInteger_and_gt numActions 1 then
        Some (Error [Lit ''Expected numActions to be a integer greater than 1, '',
                     Lit ''but got '', Subst numActions])
      else None)"

text \<open>The value of a checked argument, read as a number.\<close>

fun numberOf :: "jsval \<Rightarrow> real" where
  "numberOf (JNumber (Finite r)) = r"
| "numberOf v = 0"

text \<open>\<^verbatim>\<open>createDeepQNetwork\<close>: the checks, then the five \<^verbatim>\<open>model.add\<close> calls.
  \<^verbatim>\<open>model.summary()\<close> prints to the console and leaves the model as it is.\<close>

definition createDeepQNetwork :: "jsval \<Rightarrow> jsval \<Rightarrow> jsval \<Rightarrow> jsval \<Rightarrow> error + sequential" where
  "createDeepQNetwork h w stateFrames numActions =
     (case checkArguments h w stateFrames numActions of
        Some e \<Rightarrow> Inl e
      | None \<Rightarrow>
          andThen (add tf_sequential
            (Conv2d 16 3 1 (Some ''relu'')
               (Some [numberOf h, numberOf w, 2 * numberOf stateFrames]))) (\<lambda>m1.
          andThen (add m1 (Conv2d 32 3 1 (Some ''relu'') None)) (\<lambda>m2.
          andThen (add m2 Flatten) (\<lambda>m3.
          andThen (add m3 (Dense 256 (Some ''relu''))) (\<lambda>m4.
          add m4 (Dense (numberOf numActions) None))))))"

text \<open>The wording of the specification: a positive integer, an integer greater than one.\<close>

definition int_value :: "int \<Rightarrow> jsval" where
  "int_value n = JNumber (Finite (of_int n))"

definition is_positive_integer :: "jsval \<Rightarrow> bool" where
  "is_positive_integer v = (\<exists>n::int. 0 < n \<and> v = int_value n)"

definition is_integer_greater_than_1 :: "jsval \<Rightarrow> bool" where
  "is_integer_greater_than_1 v = (\<exists>n::int. 1 < n \<and> v = int_value n)"

text \<open>A board side that leaves room for the two 3 by 3 convolutions: an integer greater
  than 3.\<close>

definition is_integer_greater_than_3 :: "jsval \<Rightarrow> bool" where
  "is_integer_greater_than_3 v = (\<exists>n::int. 3 < n \<and> v = int_value n)"

text \<open>An error names a parameter when the literal text of its message contains the name.\<close>

fun names_parameter :: "string \<Rightarrow> error \<Rightarrow> bool" where
  "names_parameter p (Error ps) =
     list_ex (\<lambda>x. case x of Lit l \<Rightarrow> sublist p l | Subst v \<Rightarrow> False) ps"
| "names_parameter p (ValueError m) = False"

text \<open>
  \<^verbatim>\<open>copyWeights\<close> works on the weights of two models. A weight is a variable of the
  library: a cell that holds a tensor and that training assigns to. The cells are addresses
  of a store; a tensor is an immutable value (its shape and its entries); a network is the
  list of its weight variables, in the order \<^verbatim>\<open>getWeights\<close> reports them.
\<close>

type_synonym addr = nat

record tensor =
  t_shape :: "nat list"
  t_values :: "real list"

type_synonym store = "addr \<Rightarrow> tensor"

record network =
  weights :: "addr list"

text \<open>\<^verbatim>\<open>net.getWeights()\<close>: the current values of the weight variables.\<close>

definition getWeights :: "network \<Rightarrow> store \<Rightarrow> tensor list" where
  "getWeights net s = map s (weights net)"

text \<open>\<^verbatim>\<open>net.setWeights(ws)\<close>: the library refuses a list of another length and a tensor
  of another shape than the variable's; otherwise each variable is assigned its tensor.\<close>

definition batchSetValue :: "(addr \<times> tensor) list \<Rightarrow> store \<Rightarrow> store" where
  "batchSetValue pairs s = fold (\<lambda>(a, v) st. st(a := v)) pairs s"

definition setWeights :: "network \<Rightarrow> tensor list \<Rightarrow> store \<Rightarrow> error + store" where
  "setWeights net ws s =
     (if length (weights net) \<noteq> length ws then
        Inl (ValueError ''setWeights: weight list of another length'')
      else if \<not> list_all2 (\<lambda>pv w. t_shape pv = t_shape w) (getWeights net s) ws then
        Inl (ValueError ''Layer weight shape not compatible with provided weight shape'')
      else Inr (batchSetValue (zip (weights net) ws) s))"

definition copyWeights :: "network \<Rightarrow> network \<Rightarrow> store \<Rightarrow> error + store" where
  "copyWeights destNetwork srcNetwork s = setWeights destNetwork (getWeights srcNetwork s) s"

text \<open>Two networks of the same architecture: as many weights, of the same shapes.\<close>

definition same_architecture :: "network \<Rightarrow> network \<Rightarrow> store \<Rightarrow> bool" where
  "same_architecture n1 n2 s =
     (length (weights n1) = length (weights n2) \<and>
      list_all2 (\<lambda>a b. t_shape (s a) = t_shape (s b)) (weights n1) (weights n2))"

text \<open>Two networks are separate when each weight variable of the destination occurs once
  in it and none of them is a variable of the source.\<close>

definition separate :: "network \<Rightarrow> network \<Rightarrow> bool" where
  "separate destNetwork srcNetwork =
     (distinct (weights destNetwork) \<and>
      list_all (\<lambda>a. a \<notin> set (weights srcNetwork)) (weights destNetwork))"

text \<open>A later store modifies only the weights of a network when every other cell is as
  before.\<close>

definition modifies_only :: "network \<Rightarrow> store \<Rightarrow> store \<Rightarrow> bool" where
  "modifies_only net s s' = (\<forall>a. a \<notin> set (weights net) \<longrightarrow> s' a = s a)"

section \<open>The IMDB data loader\<close>

text \<open>
  The file system the loader reads: the content of every file, as bytes, and the
  directories. \<^verbatim>\<open>fs.readFileSync\<close> throws when there is no such file.
\<close>

type_synonym byte = "8 word"

record filesystem =
  files :: "string \<rightharpoonup> byte list"
  dirs :: "string list"

datatype io_error =
    RangeError string
  | ENOENT string
  | AssertionError string
  | Rejected string
  | TfError string

definition readFileSync :: "filesystem \<Rightarrow> string \<Rightarrow> io_error + byte list" where
  "readFileSync fs filePath =
     (case files fs filePath of None \<Rightarrow> Inl (ENOENT filePath) | Some b \<Rightarrow> Inr b)"

text \<open>Four bytes, least significant first, read as a signed 32-bit integer.\<close>

definition int32_of_bytes :: "byte \<Rightarrow> byte \<Rightarrow> byte \<Rightarrow> byte \<Rightarrow> int" where
  "int32_of_bytes b0 b1 b2 b3 =
     sint (word_of_nat (unat b0 + 2 ^ 8 * unat b1 + 2 ^ 16 * unat b2 + 2 ^ 24 * unat b3)
           :: 32 word)"

text \<open>\<^verbatim>\<open>buffer.readInt32LE(index)\<close> throws a RangeError unless four bytes are there.\<close>

definition readInt32LE :: "byte list \<Rightarrow> nat \<Rightarrow> io_error + int" where
  "readInt32LE buffer index =
     (if index + 4 \<le> length buffer then
        Inr (int32_of_bytes (buffer ! index) (buffer ! (index + 1))
               (buffer ! (index + 2)) (buffer ! (index + 3)))
      else Inl (RangeError ''ERR_OUT_OF_RANGE''))"

definition PAD_CHAR :: int where "PAD_CHAR = 0"
definition OOV_CHAR :: int where "OOV_CHAR = 2"

text \<open>The \<^verbatim>\<open>while (index < numBytes)\<close> loop of \<^verbatim>\<open>loadFeatures\<close>, with its three variables
  \<open>sequences\<close>, \<open>seq\<close> and \<open>index\<close>.\<close>

function loadFeatures_loop ::
  "byte list \<Rightarrow> int \<Rightarrow> nat \<Rightarrow> int list list \<Rightarrow> int list \<Rightarrow> io_error + int list list \<times> int list"
where
  "loadFeatures_loop buffer numWords index sequences seq =
     (if index < length buffer then
        (case readInt32LE buffer index of
           Inl e \<Rightarrow> Inl e
         | Inr v \<Rightarrow>
             if v = 1 then
               loadFeatures_loop buffer numWords (index + 4)
                 (if index > 0 then sequences @ [seq] else sequences) []
             else
               loadFeatures_loop buffer numWords (index + 4) sequences
                 (seq @ [if v \<ge> numWords then OOV_CHAR else v]))
      else Inr (sequences, seq))"
  by pat_completeness auto
termination
  by (relation "measure (\<lambda>(buffer, numWords, index, sequences, seq). length buffer - index)") auto

declare loadFeatures_loop.simps [simp del]

text \<open>The loop from index 0, then the push of the last sequence when it is not empty.\<close>

definition loadFeatures_sequences :: "byte list \<Rightarrow> int \<Rightarrow> io_error + int list list" where
  "loadFeatures_sequences buffer numWords =
     (case loadFeatures_loop buffer numWords 0 [] [] of
        Inl e \<Rightarrow> Inl e
      | Inr (sequences, seq) \<Rightarrow>
          Inr (if length seq > 0 then sequences @ [seq] else sequences))"

text \<open>
  Modelled from the spec: \<^verbatim>\<open>padSequences\<close> of \<^verbatim>\<open>./sequence_utils\<close> is not among the
  sources. With both modes \<^verbatim>\<open>'pre'\<close> a sequence longer than \<open>maxLen\<close> loses its first
  elements and a shorter one is filled up in front with the padding value, so that every
  sequence has length \<open>maxLen\<close>; with another mode the same is done at the end.
\<close>

definition padSequences ::
  "int list list \<Rightarrow> nat \<Rightarrow> string \<Rightarrow> string \<Rightarrow> int \<Rightarrow> int list list" where
  "padSequences sequences maxLen padding truncating v =
     map (\<lambda>seq.
        let t = (if length seq > maxLen then
                   (if truncating = ''pre'' then drop (length seq - maxLen) seq
                    else take maxLen seq)
                 else seq)
        in if length t < maxLen then
             (if padding = ''pre'' then replicate (maxLen - length t) v @ t
              else t @ replicate (maxLen - length t) v)
           else t) sequences"

text \<open>\<^verbatim>\<open>tf.tensor2d(values, shape, dtype)\<close> of the library: a matrix given by its rows, which
  must agree with the shape.\<close>

record tensor2d =
  dims :: "nat list"
  dtype :: string
  rows :: "int list list"

definition tf_tensor2d :: "int list list \<Rightarrow> nat \<times> nat \<Rightarrow> string \<Rightarrow> io_error + tensor2d" where
  "tf_tensor2d vals shp dt =
     (if length vals = fst shp \<and> list_all (\<lambda>r. length r = snd shp) vals then
        Inr \<lparr>dims = [fst shp, snd shp], dtype = dt, rows = vals\<rparr>
      else Inl (TfError ''values do not match the shape''))"

definition loadFeatures :: "filesystem \<Rightarrow> string \<Rightarrow> int \<Rightarrow> nat \<Rightarrow> io_error + tensor2d" where
  "loadFeatures fs filePath numWords maxLen =
     (case readFileSync fs filePath of
        Inl e \<Rightarrow> Inl e
      | Inr buffer \<Rightarrow>
          (case loadFeatures_sequences buffer numWords of
             Inl e \<Rightarrow> Inl e
           | Inr sequences \<Rightarrow>
               (let paddedSequences = padSequences sequences maxLen ''pre'' ''pre'' PAD_CHAR
                in tf_tensor2d paddedSequences (length paddedSequences, maxLen) ''int32'')))"

text \<open>The wording of the claim: the file as consecutive little-endian 32-bit integers, and
  what is recorded for a value that is not the delimiter.\<close>

fun int32s :: "byte list \<Rightarrow> int list" where
  "int32s (b0 # b1 # b2 # b3 # rest) = int32_of_bytes b0 b1 b2 b3 # int32s rest"
| "int32s bs = []"

definition recorded :: "int \<Rightarrow> int \<Rightarrow> int" where
  "recorded numWords v = (if v \<ge> numWords then 2 else v)"

text \<open>The same splitting on the list of values: \<open>started\<close> tells whether a value has
  been read before, as \<open>index > 0\<close> does in the loop.\<close>

fun split_values ::
  "int \<Rightarrow> bool \<Rightarrow> int list \<Rightarrow> int list list \<Rightarrow> int list \<Rightarrow> int list list \<times> int list" where
  "split_values numWords started [] sequences seq = (sequences, seq)"
| "split_values numWords started (v # vs) sequences seq =
     (if v = 1 then
        split_values numWords True vs (if started then sequences @ [seq] else sequences) []
      else split_values numWords True vs sequences (seq @ [recorded numWords v]))"






















text \<open>A small feature file: the values 1, 5, 200, 1, -1.\<close>

definition example_fs :: filesystem where
  "example_fs = \<lparr>files = [''imdb_train_data.bin'' \<mapsto>
       [1, 0, 0, 0,  5, 0, 0, 0,  200, 0, 0, 0,  1, 0, 0, 0,  255, 255, 255, 255]],
     dirs = []\<rparr>"



section \<open>The cart-pole test button\<close>

text \<open>
  The handler of the test button drives two objects that are not among the sources: the
  cart-pole simulator (\<^verbatim>\<open>./cart_pole\<close>) and the policy network (\<^verbatim>\<open>./index\<close>). They are
  parameters here: the state \<^verbatim>\<open>setRandomState\<close> leaves, the action the policy network
  picks for a state at a given step (the step number stands for whatever randomness the
  choice draws), and \<^verbatim>\<open>update\<close>, which moves the state and tells whether the episode is
  over. The handler is described by the events it produces, in order.
\<close>

record 'c simulator =
  randomState :: 'c
  getAction :: "nat \<Rightarrow> 'c \<Rightarrow> int"
  update :: "'c \<Rightarrow> int \<Rightarrow> bool \<times> 'c"

datatype event =
    DisableUI
  | SetRandomState
  | LogProgress int nat
  | Update int bool
  | Render
  | NextFrame
  | LogFinished nat
  | EnableUI

text \<open>The \<^verbatim>\<open>while (!isDone)\<close> loop. It runs as long as \<^verbatim>\<open>update\<close> returns false, which
  may be forever: the first argument bounds the number of iterations, and \<open>None\<close> says
  that the bound was reached before the loop ended.\<close>

fun testLoop ::
  "nat \<Rightarrow> 'c simulator \<Rightarrow> 'c \<Rightarrow> nat \<Rightarrow> event list \<Rightarrow> ('c \<times> nat \<times> event list) option" where
  "testLoop 0 sim cartPole steps trace = None"
| "testLoop (Suc fuel) sim cartPole steps trace =
     (let steps' = steps + 1;
          action = getAction sim steps' cartPole;
          (isDone, cartPole') = update sim cartPole action;
          trace' = trace @ [LogProgress action steps', Update action isDone, Render, NextFrame]
      in if isDone then Some (cartPole', steps', trace')
         else testLoop fuel sim cartPole' steps' trace')"

definition testButton_click :: "nat \<Rightarrow> 'c simulator \<Rightarrow> (nat \<times> event list) option" where
  "testButton_click fuel sim =
     (case testLoop fuel sim (randomState sim) 0 [DisableUI, SetRandomState] of
        None \<Rightarrow> None
      | Some (cartPole, steps, trace) \<Rightarrow> Some (steps, trace @ [LogFinished steps, EnableUI]))"

text \<open>The episode of a simulator under a policy, told without the loop: the state after
  \<open>k\<close> updates, the action taken there, and whether that update ends the episode.\<close>

primrec stateAfter :: "'c simulator \<Rightarrow> nat \<Rightarrow> 'c" where
  "stateAfter sim 0 = randomState sim"
| "stateAfter sim (Suc k) =
     snd (update sim (stateAfter sim k) (getAction sim (Suc k) (stateAfter sim k)))"

definition actionAt :: "'c simulator \<Rightarrow> nat \<Rightarrow> int" where
  "actionAt sim k = getAction sim (Suc k) (stateAfter sim k)"

definition terminalAt :: "'c simulator \<Rightarrow> nat \<Rightarrow> bool" where
  "terminalAt sim k = fst (update sim (stateAfter sim k) (actionAt sim k))"

definition stepEvents :: "'c simulator \<Rightarrow> nat \<Rightarrow> event list" where
  "stepEvents sim k =
     [LogProgress (actionAt sim k) (Suc k), Update (actionAt sim k) (terminalAt sim k),
      Render, NextFrame]"

definition episodeTrace :: "'c simulator \<Rightarrow> nat \<Rightarrow> event list" where
  "episodeTrace sim n =
     [DisableUI, SetRandomState] @ concat (map (stepEvents sim) [0..<Suc n]) @
     [LogFinished (Suc n), EnableUI]"

text \<open>The first update that ends the episode is update number \<open>n\<close>, counted from 0.\<close>

definition firstTerminal :: "'c simulator \<Rightarrow> nat \<Rightarrow> bool" where
  "firstTerminal sim n = (terminalAt sim n \<and> (\<forall>k<n. \<not> terminalAt sim k))"

fun updateResults :: "event list \<Rightarrow> bool list" where
  "updateResults [] = []"
| "updateResults (Update a b # es) = b # updateResults es"
| "updateResults (e # es) = updateResults es"

text \<open>A simulator whose third update ends the episode.\<close>

definition example_sim :: "nat simulator" where
  "example_sim = \<lparr>randomState = 0, getAction = (\<lambda>step c. 1),
                   update = (\<lambda>c a. (3 \<le> c + 1, c + 1))\<rparr>"

section \<open>The date-conversion front end\<close>

text \<open>
  A string is the list of its code units; their type \<open>'u\<close> is left open. The handler of
  the \<^verbatim>\<open>change\<close> event of the input field takes from elsewhere what the environment
  holds: \<^verbatim>\<open>INPUT_LENGTH\<close> (\<^verbatim>\<open>./date_format\<close>), the built-in string methods \<^verbatim>\<open>trim\<close>
  and \<^verbatim>\<open>toUpperCase\<close>, \<^verbatim>\<open>runSeq2SeqInference\<close> (\<^verbatim>\<open>./model\<close>) on the loaded model, which
  returns the output string and the attention or throws an error with a message, the time
  the inference took, and the heat map renderer, which may throw as well. The page keeps
  the two fields the handler writes, the arguments of the inferences that were run and
  the heat maps that were drawn.
\<close>

record 'u heatmap =
  xLabels :: "(nat \<times> 'u list) list"
  yLabels :: "(nat \<times> 'u list) list"

record ('u, 'a) date_env =
  INPUT_LENGTH :: nat
  String_trim :: "'u list \<Rightarrow> 'u list"
  String_toUpperCase :: "'u list \<Rightarrow> 'u list"
  runSeq2SeqInference :: "'u list \<Rightarrow> 'u list + ('u list \<times> 'a)"
  tElapsed :: real
  render_heatmap :: "'a \<Rightarrow> 'u heatmap \<Rightarrow> 'u list option"

record 'u page =
  outputDateString_value :: "'u list"
  inferenceTime_textContent :: "real option"
  inferences :: "'u list list"
  heatmaps :: "'u heatmap list"

definition inputDateString_change :: "('u, 'a) date_env \<Rightarrow> 'u list \<Rightarrow> 'u page \<Rightarrow> 'u page" where
  "inputDateString_change env inputDateString_value pg =
     (let inputStr = String_toUpperCase env (String_trim env inputDateString_value) in
      if length inputStr < 6 then pg\<lparr>outputDateString_value := []\<rparr>
      else
        (let inputStr = (if length inputStr > INPUT_LENGTH env
                         then take (INPUT_LENGTH env) inputStr else inputStr);
             pg1 = pg\<lparr>inferences := inferences pg @ [inputStr]\<rparr>
         in case runSeq2SeqInference env inputStr of
              Inl message \<Rightarrow> pg1\<lparr>outputDateString_value := message\<rparr>
            | Inr (outputStr, attention) \<Rightarrow>
                (let pg2 = pg1\<lparr>inferenceTime_textContent := Some (tElapsed env),
                              outputDateString_value := outputStr\<rparr>;
                     xs = map (\<lambda>i. (i + 1, [outputStr ! i])) [0..<length outputStr];
                     ys = map (\<lambda>i. if i < length inputStr then (i + 1, [inputStr ! i])
                                     else (i + 1, [])) [0..<INPUT_LENGTH env];
                     hm = \<lparr>xLabels = xs, yLabels = ys\<rparr>
                 in case render_heatmap env attention hm of
                      Some message \<Rightarrow> pg2\<lparr>outputDateString_value := message\<rparr>
                    | None \<Rightarrow> pg2\<lparr>heatmaps := heatmaps pg2 @ [hm]\<rparr>)))"

text \<open>An environment with twelve input characters whose inference answers with a fixed
  date, and a page on which nothing has happened. The two string methods are given by
  their values at the two inputs of the example.\<close>

definition example_date_env :: "(char, unit) date_env" where
  "example_date_env = \<lparr>INPUT_LENGTH = 12,
     String_trim = (\<lambda>s. if s = ''  January 18, 2019  '' then ''January 18, 2019''
                         else if s = '' jan '' then ''jan'' else s),
     String_toUpperCase = (\<lambda>s. if s = ''January 18, 2019'' then ''JANUARY 18, 2019''
                                else if s = ''jan'' then ''JAN'' else s),
     runSeq2SeqInference = (\<lambda>s. Inr (''2019-01-18'', ())),
     tElapsed = 5, render_heatmap = (\<lambda>a h. None)\<rparr>"

definition example_page :: "char page" where
  "example_page = \<lparr>outputDateString_value = ''Loading model...'',
     inferenceTime_textContent = None, inferences = [], heatmaps = []\<rparr>"

section \<open>The cart-pole train button\<close>

text \<open>
  The page of the cart-pole example, as far as the train button reads and writes it: the
  input fields, the buttons, the status lines, the plotted values and the two module
  variables \<^verbatim>\<open>policyNet\<close> (here: whether it is set) and \<^verbatim>\<open>renderDuringTraining\<close>. Two
  more fields record what was done to the policy network: the iterations it was trained
  for and how often it was saved. The text of \<^verbatim>\<open>trainSpeed\<close> depends on the clock and
  is left out.
\<close>

record app =
  numIterationsInput_value :: string
  gamesPerIterationInput_value :: string
  maxStepsPerGameInput_value :: string
  discountRateInput_value :: string
  learningRateInput_value :: string
  trainButton_disabled :: bool
  testButton_disabled :: bool
  deleteStoredModelButton_disabled :: bool
  createModelButton_disabled :: bool
  hiddenLayerSizesInput_disabled :: bool
  storedModelStatusInput_value :: "piece list"
  appStatus :: "piece list"
  trainStatus :: "(nat \<times> int) option"
  meanStepValues :: "(nat \<times> real) list"
  policyNet_present :: bool
  renderDuringTraining :: bool
  renderDuringTrainingCheckbox_checked :: bool
  trainCalls :: "nat list"
  saveCalls :: nat

text \<open>
  What the handler calls and does not define: \<^verbatim>\<open>Number.parseInt\<close>, whose result is an
  integer or NaN (\<open>None\<close>), \<^verbatim>\<open>Number.parseFloat\<close>, the training of the policy network
  for one iteration, which returns the steps of its games or throws, \<^verbatim>\<open>saveModel\<close>, which
  may throw, \<^verbatim>\<open>checkStoredModelStatus\<close> and \<^verbatim>\<open>mean\<close> (\<^verbatim>\<open>./index\<close>, \<^verbatim>\<open>./utils\<close>).
\<close>

record train_env =
  Number_parseInt :: "string \<Rightarrow> int option"
  Number_parseFloat :: "string \<Rightarrow> jsnum"
  policyNet_train :: "nat \<Rightarrow> jsnum \<Rightarrow> int \<Rightarrow> int \<Rightarrow> piece list + real list"
  policyNet_saveModel :: "piece list option"
  checkStoredModelStatus :: "string option"
  mean :: "real list \<Rightarrow> real"

definition number_of_parseInt :: "int option \<Rightarrow> jsnum" where
  "number_of_parseInt r = (case r of None \<Rightarrow> NaN | Some n \<Rightarrow> Finite (of_int n))"

definition logStatus :: "piece list \<Rightarrow> app \<Rightarrow> app" where
  "logStatus message st = st\<lparr>appStatus := message\<rparr>"

definition onIterationEnd :: "nat \<Rightarrow> int \<Rightarrow> app \<Rightarrow> app" where
  "onIterationEnd iterationCount totalIterations st =
     st\<lparr>trainStatus := Some (iterationCount, totalIterations)\<rparr>"

definition disableUI :: "app \<Rightarrow> app" where
  "disableUI st = st\<lparr>trainButton_disabled := True, testButton_disabled := True,
                     deleteStoredModelButton_disabled := True\<rparr>"

definition enableUI :: "app \<Rightarrow> app" where
  "enableUI st = st\<lparr>trainButton_disabled := False, testButton_disabled := False,
                    deleteStoredModelButton_disabled := False\<rparr>"

definition updateLocallyStoredModelStatus :: "train_env \<Rightarrow> app \<Rightarrow> app" where
  "updateLocallyStoredModelStatus env st =
     (let st1 =
        (case checkStoredModelStatus env of
           None \<Rightarrow> st\<lparr>storedModelStatusInput_value := [Lit ''No stored model.''],
                      deleteStoredModelButton_disabled := True\<rparr>
         | Some dateSaved \<Rightarrow>
             st\<lparr>storedModelStatusInput_value := [Lit ''Saved @ '', Subst (JString dateSaved)],
                deleteStoredModelButton_disabled := False,
                createModelButton_disabled := True\<rparr>)
      in st1\<lparr>createModelButton_disabled := policyNet_present st1,
             hiddenLayerSizesInput_disabled := policyNet_present st1,
             trainButton_disabled := \<not> policyNet_present st1,
             testButton_disabled := \<not> policyNet_present st1,
             renderDuringTrainingCheckbox_checked := renderDuringTraining st1\<rparr>)"

text \<open>The \<^verbatim>\<open>for\<close> loop over the iterations: \<open>k\<close> iterations are left, \<open>i\<close> is the
  loop variable. The result is the state reached and, when something was thrown, the
  message of the error.\<close>

fun trainLoop ::
  "train_env \<Rightarrow> nat \<Rightarrow> nat \<Rightarrow> int \<Rightarrow> jsnum \<Rightarrow> int \<Rightarrow> int \<Rightarrow> app \<Rightarrow> piece list option \<times> app"
where
  "trainLoop env 0 i trainIterations discountRate gamesPerIteration maxStepsPerGame st =
     (None, st)"
| "trainLoop env (Suc k) i trainIterations discountRate gamesPerIteration maxStepsPerGame st =
     (if \<not> policyNet_present st then
        (Some [Lit ''Cannot read property train of null''], st)
      else
        (let st1 = st\<lparr>trainCalls := trainCalls st @ [i]\<rparr> in
         case policyNet_train env i discountRate gamesPerIteration maxStepsPerGame of
           Inl message \<Rightarrow> (Some message, st1)
         | Inr gameSteps \<Rightarrow>
             (let st2 = st1\<lparr>meanStepValues :=
                              meanStepValues st1 @ [(i + 1, mean env gameSteps)]\<rparr>;
                  st3 = onIterationEnd (i + 1) trainIterations st2
              in trainLoop env k (i + 1) trainIterations discountRate gamesPerIteration
                   maxStepsPerGame st3)))"

text \<open>The \<^verbatim>\<open>try\<close> block of the handler.\<close>

definition trainButton_try :: "train_env \<Rightarrow> app \<Rightarrow> piece list option \<times> app" where
  "trainButton_try env st =
     (let trainIterations = Number_parseInt env (numIterationsInput_value st) in
      if \<not> num_gt (number_of_parseInt trainIterations) 0 then
        (Some [Lit ''Invalid number of iterations: '',
               Subst (JNumber (number_of_parseInt trainIterations))], st)
      else
     (let gamesPerIteration = Number_parseInt env (gamesPerIterationInput_value st) in
      if \<not> num_gt (number_of_parseInt gamesPerIteration) 0 then
        (Some [Lit ''Invalid # of games per iterations: '',
               Subst (JNumber (number_of_parseInt gamesPerIteration))], st)
      else
     (let maxStepsPerGame = Number_parseInt env (maxStepsPerGameInput_value st) in
      if \<not> num_gt (number_of_parseInt maxStepsPerGame) 1 then
        (Some [Lit ''Invalid max. steps per game: '',
               Subst (JNumber (number_of_parseInt maxStepsPerGame))], st)
      else
     (let discountRate = Number_parseFloat env (discountRateInput_value st) in
      if \<not> (num_gt discountRate 0 \<and> num_lt discountRate 1) then
        (Some [Lit ''Invalid discount rate: '', Subst (JNumber discountRate)], st)
      else
     (let learningRate = Number_parseFloat env (learningRateInput_value st);
          st1 = logStatus [Lit ''Training policy network... Please wait. Network will be saved to IndexedDB when training is complete.''] st;
          st2 = st1\<lparr>meanStepValues := []\<rparr>;
          st3 = onIterationEnd 0 (the trainIterations) st2
      in case trainLoop env (nat (the trainIterations)) 0 (the trainIterations) discountRate
                (the gamesPerIteration) (the maxStepsPerGame) st3 of
           (Some message, st4) \<Rightarrow> (Some message, st4)
         | (None, st4) \<Rightarrow>
             (if \<not> policyNet_present st4 then
                (Some [Lit ''Cannot read property saveModel of null''], st4)
              else
                (let st5 = st4\<lparr>saveCalls := saveCalls st4 + 1\<rparr> in
                 case policyNet_saveModel env of
                   Some message \<Rightarrow> (Some message, st5)
                 | None \<Rightarrow>
                     (None, logStatus [Lit ''Training completed.'']
                              (updateLocallyStoredModelStatus env st5)))))))))"

definition trainButton_click :: "train_env \<Rightarrow> app \<Rightarrow> app" where
  "trainButton_click env st =
     (case trainButton_try env (disableUI st) of
        (Some message, st') \<Rightarrow> enableUI (logStatus (Lit ''ERROR: '' # message) st')
      | (None, st') \<Rightarrow> enableUI st')"

text \<open>The conditions of the claim on the four hyperparameters.\<close>

definition iterations_ok :: "train_env \<Rightarrow> app \<Rightarrow> bool" where
  "iterations_ok env st = (\<exists>n>0. Number_parseInt env (numIterationsInput_value st) = Some n)"

definition games_ok :: "train_env \<Rightarrow> app \<Rightarrow> bool" where
  "games_ok env st = (\<exists>n>0. Number_parseInt env (gamesPerIterationInput_value st) = Some n)"

definition maxSteps_ok :: "train_env \<Rightarrow> app \<Rightarrow> bool" where
  "maxSteps_ok env st = (\<exists>n>1. Number_parseInt env (maxStepsPerGameInput_value st) = Some n)"

definition discount_ok :: "train_env \<Rightarrow> app \<Rightarrow> bool" where
  "discount_ok env st =
     (\<exists>r. 0 < r \<and> r < 1 \<and> Number_parseFloat env (discountRateInput_value st) = Finite r)"

definition hyperparameters_ok :: "train_env \<Rightarrow> app \<Rightarrow> bool" where
  "hyperparameters_ok env st =
     (iterations_ok env st \<and> games_ok env st \<and> maxSteps_ok env st \<and> discount_ok env st)"

text \<open>An environment in which every training iteration succeeds, and a page with valid
  hyperparameters.\<close>

definition example_train_env :: train_env where
  "example_train_env = \<lparr>
     Number_parseInt = (\<lambda>s. if s = ''2'' then Some 2 else if s = ''20'' then Some 20
                            else if s = ''500'' then Some 500 else if s = ''0'' then Some 0
                            else None),
     Number_parseFloat = (\<lambda>s. if s = ''0.95'' then Finite 0.95 else NaN),
     policyNet_train = (\<lambda>i d g m. Inr [10, 12]),
     policyNet_saveModel = None,
     checkStoredModelStatus = Some ''2019-01-18T00:00:00.000Z'',
     mean = (\<lambda>xs. 11)\<rparr>"

definition example_app :: app where
  "example_app = \<lparr>
     numIterationsInput_value = ''2'',
     gamesPerIterationInput_value = ''20'',
     maxStepsPerGameInput_value = ''500'',
     discountRateInput_value = ''0.95'',
     learningRateInput_value = ''0.05'',
     trainButton_disabled = False,
     testButton_disabled = False,
     deleteStoredModelButton_disabled = True,
     createModelButton_disabled = True,
     hiddenLayerSizesInput_disabled = True,
     storedModelStatusInput_value = [Lit ''No stored model.''],
     appStatus = [],
     trainStatus = None,
     meanStepValues = [],
     policyNet_present = True,
     renderDuringTraining = False,
     renderDuringTrainingCheckbox_checked = False,
     trainCalls = [],
     saveCalls = 0\<rparr>"

section \<open>jena-weather/train-rnn.js\<close>

text \<open>
  The argument parser is the library \<^verbatim>\<open>argparse\<close>. Of it the development keeps the
  declarations \<^verbatim>\<open>parseArguments\<close> makes (name, type, action, default value) and the rule
  that an argument given on the command line has its converted value (the last one, when
  it is given more than once) and any other its default; a flag with the action
  \<^verbatim>\<open>storeTrue\<close> is false unless given. The command line is the list of the arguments
  given, by name and in order, with their converted values; an unknown name and a value
  that is no integer for an argument of type \<^verbatim>\<open>int\<close> end the program with an error.
\<close>

datatype argtype = TypeString | TypeInt | TypeAny

datatype argaction = Store | StoreTrue

record argument =
  arg_name :: string
  arg_type :: argtype
  arg_action :: argaction
  defaultValue :: "jsval option"

definition number :: "real \<Rightarrow> jsval" where
  "number r = JNumber (Finite r)"

definition addArgument ::
  "argument list \<Rightarrow> string \<Rightarrow> argtype \<Rightarrow> argaction \<Rightarrow> jsval option \<Rightarrow> argument list" where
  "addArgument parser name ty act dflt =
     parser @ [\<lparr>arg_name = name, arg_type = ty, arg_action = act, defaultValue = dflt\<rparr>]"

definition default_of :: "argument \<Rightarrow> jsval" where
  "default_of a =
     (case defaultValue a of
        Some v \<Rightarrow> v
      | None \<Rightarrow> (if arg_action a = StoreTrue then JBoolean False else JNull))"

definition accepts :: "argument \<Rightarrow> jsval \<Rightarrow> bool" where
  "accepts a v =
     (case arg_action a of
        StoreTrue \<Rightarrow> v = JBoolean True
      | Store \<Rightarrow>
          (case arg_type a of
             TypeInt \<Rightarrow> Number_isInteger v
           | TypeString \<Rightarrow> (case v of JString s \<Rightarrow> True | _ \<Rightarrow> False)
           | TypeAny \<Rightarrow> True))"

definition parseArgs ::
  "argument list \<Rightarrow> (string \<times> jsval) list \<Rightarrow> string + (string \<rightharpoonup> jsval)" where
  "parseArgs parser given =
     (if \<not> list_all (\<lambda>(name, v).
              case find (\<lambda>a. arg_name a = name) parser of
                None \<Rightarrow> False
              | Some a \<Rightarrow> accepts a v) given
      then Inl ''usage''
      else Inr (\<lambda>name.
             case find (\<lambda>a. arg_name a = name) parser of
               None \<Rightarrow> None
             | Some a \<Rightarrow>
                 (case map_of (rev given) name of
                    Some v \<Rightarrow> Some v
                  | None \<Rightarrow> Some (default_of a))))"

text \<open>\<^verbatim>\<open>parseArguments\<close>: the ten declarations, in the order of the source.\<close>

definition parseArguments :: "(string \<times> jsval) list \<Rightarrow> string + (string \<rightharpoonup> jsval)" where
  "parseArguments given =
     (let parser = [];
          parser = addArgument parser ''modelType'' TypeString Store (Some (JString ''gru''));
          parser = addArgument parser ''gpu'' TypeAny StoreTrue None;
          parser = addArgument parser ''lookBack'' TypeInt Store (Some (number (10 * 24 * 6)));
          parser = addArgument parser ''step'' TypeInt Store (Some (number 6));
          parser = addArgument parser ''delay'' TypeInt Store (Some (number (24 * 6)));
          parser = addArgument parser ''normalize'' TypeAny Store (Some (JBoolean True));
          parser = addArgument parser ''includeDateTime'' TypeAny StoreTrue None;
          parser = addArgument parser ''batchSize'' TypeInt Store (Some (number 128));
          parser = addArgument parser ''epochs'' TypeInt Store (Some (number 20));
          parser = addArgument parser ''displayEvery'' TypeInt Store (Some (number 10))
      in parseArgs parser given)"

text \<open>Reading a property of the parsed arguments, and \<^verbatim>\<open>Math.floor\<close>, which is exact
  on every number.\<close>

definition property :: "(string \<rightharpoonup> jsval) \<Rightarrow> string \<Rightarrow> jsval" where
  "property args name = (case args name of None \<Rightarrow> JUndefined | Some v \<Rightarrow> v)"

fun Math_floor :: "jsnum \<Rightarrow> jsnum" where
  "Math_floor (Finite r) = Finite (of_int \<lfloor>r\<rfloor>)"
| "Math_floor n = n"

fun truthy :: "jsval \<Rightarrow> bool" where
  "truthy (JBoolean b) = b"
| "truthy JUndefined = False"
| "truthy JNull = False"
| "truthy (JString s) = (s \<noteq> [])"
| "truthy (JNumber (Finite r)) = (r \<noteq> 0)"
| "truthy (JNumber NaN) = False"
| "truthy v = True"

text \<open>
  \<^verbatim>\<open>main\<close>, by the calls it makes. The data (\<^verbatim>\<open>./data\<close>) and the two functions of
  \<^verbatim>\<open>./models\<close> are not among the sources: loading the data yields its column names or
  throws, and \<^verbatim>\<open>buildModel\<close> and \<^verbatim>\<open>trainModel\<close> are recorded with their arguments. The
  division \<^verbatim>\<open>/\<close> of JavaScript, which rounds its result to a double, is taken from the
  environment as well.
\<close>

datatype call =
    ConsoleLog string
  | Require string
  | Load
  | BuildModel jsval jsnum nat
  | TrainModel "jsval list"

record weather_env =
  argv :: "(string \<times> jsval) list"
  load :: "string + string list"
  quotient :: "jsval \<Rightarrow> jsval \<Rightarrow> jsnum"

definition main :: "weather_env \<Rightarrow> string + call list" where
  "main env =
     (case parseArguments (argv env) of
        Inl e \<Rightarrow> Inl e
      | Inr args \<Rightarrow>
          (let trace1 =
                 (if truthy (property args ''gpu'')
                  then [ConsoleLog ''Using GPU for training.'', Require ''@tensorflow/tfjs-node-gpu'']
                  else [ConsoleLog ''Using CPU for training.'', Require ''@tensorflow/tfjs-node''])
           in case load env of
                Inl e \<Rightarrow> Inl e
              | Inr columnNames \<Rightarrow>
                  (let numFeatures = length columnNames in
                   Inr (trace1 @ [ConsoleLog ''Loading Jena weather data...'', Load,
                          BuildModel (property args ''modelType'')
                            (Math_floor (quotient env (property args ''lookBack'') (property args ''step'')))
                            numFeatures,
                          TrainModel [property args ''normalize'', property args ''includeDateTime'',
                            property args ''lookBack'', property args ''step'',
                            property args ''delay'', property args ''batchSize'',
                            property args ''epochs'', property args ''displayEvery'']]))))"

fun buildModelCalls :: "call list \<Rightarrow> (jsval \<times> jsnum \<times> nat) list" where
  "buildModelCalls [] = []"
| "buildModelCalls (BuildModel t n f # cs) = (t, n, f) # buildModelCalls cs"
| "buildModelCalls (c # cs) = buildModelCalls cs"

text \<open>The parser after the ten declarations.\<close>

definition the_parser :: "argument list" where
  "the_parser =
     [\<lparr>arg_name = ''modelType'', arg_type = TypeString, arg_action = Store,
        defaultValue = Some (JString ''gru'')\<rparr>,
      \<lparr>arg_name = ''gpu'', arg_type = TypeAny, arg_action = StoreTrue, defaultValue = None\<rparr>,
      \<lparr>arg_name = ''lookBack'', arg_type = TypeInt, arg_action = Store,
        defaultValue = Some (number (10 * 24 * 6))\<rparr>,
      \<lparr>arg_name = ''step'', arg_type = TypeInt, arg_action = Store,
        defaultValue = Some (number 6)\<rparr>,
      \<lparr>arg_name = ''delay'', arg_type = TypeInt, arg_action = Store,
        defaultValue = Some (number (24 * 6))\<rparr>,
      \<lparr>arg_name = ''normalize'', arg_type = TypeAny, arg_action = Store,
        defaultValue = Some (JBoolean True)\<rparr>,
      \<lparr>arg_name = ''includeDateTime'', arg_type = TypeAny, arg_action = StoreTrue,
        defaultValue = None\<rparr>,
      \<lparr>arg_name = ''batchSize'', arg_type = TypeInt, arg_action = Store,
        defaultValue = Some (number 128)\<rparr>,
      \<lparr>arg_name = ''epochs'', arg_type = TypeInt, arg_action = Store,
        defaultValue = Some (number 20)\<rparr>,
      \<lparr>arg_name = ''displayEvery'', arg_type = TypeInt, arg_action = Store,
        defaultValue = Some (number 10)\<rparr>]"

text \<open>A command line that gives the look-back period once and the step twice, data of
  three columns, and the division by its value at the operands of the example.\<close>

definition example_weather_env :: weather_env where
  "example_weather_env = \<lparr>
     argv = [(''lookBack'', number 100), (''step'', number 7), (''step'', number 5)],
     load = Inr [''p (mbar)'', ''T (degC)'', ''rho (g/m**3)''],
     quotient = (\<lambda>a b. if a = number 100 \<and> b = number 5 then Finite 20 else NaN)\<rparr>"

section \<open>quantization/quantize_evaluate.sh\<close>

text \<open>
  The script runs external commands, one after the other, under \<^verbatim>\<open>set -e\<close>: the first
  command that fails ends it. A run is described by the commands it started, in order,
  and by whether it got to the end. The environment gives the first argument of the
  script, the files that exist, what \<^verbatim>\<open>which\<close> prints, the directory \<^verbatim>\<open>mktemp -d\<close>
  creates (if it does) and which commands succeed.
\<close>

datatype command =
    Echo string
  | Pip_install string
  | Virtualenv string
  | Source string
  | Mktemp_d
  | Rm_rf string
  | Tensorflowjs_converter string string nat string string
  | Yarn "string list"

record shell_env =
  arg1 :: string
  is_file :: "string \<Rightarrow> bool"
  which :: "string \<Rightarrow> string"
  mktemp_d :: "string option"
  succeeds :: "command \<Rightarrow> bool"

text \<open>A list of commands under \<^verbatim>\<open>set -e\<close>: the commands started and whether all of
  them succeeded.\<close>

fun run_commands :: "(command \<Rightarrow> bool) \<Rightarrow> command list \<Rightarrow> command list \<times> bool" where
  "run_commands ok [] = ([], True)"
| "run_commands ok (c # cs) =
     (if ok c then (case run_commands ok cs of (started, done) \<Rightarrow> (c # started, done))
      else ([c], False))"

text \<open>The commands of the script from the creation of the virtual environment on.\<close>

definition quantize_and_evaluate_commands :: "string \<Rightarrow> string \<Rightarrow> command list" where
  "quantize_and_evaluate_commands MODEL_NAME VENV_DIR =
     (let MODEL_ROOT = ''models/'' @ MODEL_NAME;
          MODEL_PATH = MODEL_ROOT @ ''/original'';
          MODEL_JSON_PATH = MODEL_PATH @ ''/model.json'';
          MODEL_PATH_16BIT = MODEL_ROOT @ ''/quantized-16bit'';
          MODEL_PATH_8BIT = MODEL_ROOT @ ''/quantized-8bit''
      in [Echo (''Creating virtualenv at '' @ VENV_DIR @ '' ...''),
          Virtualenv VENV_DIR,
          Source (VENV_DIR @ ''/bin/activate''),
          Pip_install ''tensorflowjs'',
          Rm_rf MODEL_PATH_16BIT,
          Tensorflowjs_converter ''tfjs_layers_model'' ''tfjs_layers_model'' 2
            MODEL_JSON_PATH MODEL_PATH_16BIT,
          Rm_rf MODEL_PATH_8BIT,
          Tensorflowjs_converter ''tfjs_layers_model'' ''tfjs_layers_model'' 1
            MODEL_JSON_PATH MODEL_PATH_8BIT,
          Yarn [],
          Yarn [''eval-'' @ MODEL_NAME, MODEL_JSON_PATH],
          Yarn [''eval-'' @ MODEL_NAME, MODEL_PATH_16BIT @ ''/model.json''],
          Yarn [''eval-'' @ MODEL_NAME, MODEL_PATH_8BIT @ ''/model.json''],
          Rm_rf VENV_DIR])"

text \<open>The script. Each of the three checks at its head prints its message and exits with
  status 1.\<close>

definition quantize_evaluate :: "shell_env \<Rightarrow> command list \<times> bool" where
  "quantize_evaluate env =
     (let MODEL_NAME = arg1 env in
      if MODEL_NAME = [] then
        (fst (run_commands (succeeds env) [Echo ''Usage: quantize_evaluate <MODEL_NAME>'']), False)
      else
        (let MODEL_JSON_PATH = ''models/'' @ MODEL_NAME @ ''/original'' @ ''/model.json'' in
         if \<not> is_file env MODEL_JSON_PATH then
           (fst (run_commands (succeeds env)
              [Echo (''ERROR: Cannot find model JSON file at '' @ MODEL_JSON_PATH),
               Echo ''       Make sure you train and save a model with the'',
               Echo ''       following command first: yarn train'']), False)
         else if which env ''pip'' = [] then
           (fst (run_commands (succeeds env)
              [Echo ''ERROR: Cannot find pip on path.'',
               Echo ''       Make sure you have python and pip installed.'']), False)
         else
           (case run_commands (succeeds env)
                   (if which env ''virtualenv'' = []
                    then [Echo ''Installing virtualenv...'', Pip_install ''virtualenv'']
                    else []) of
              (started, False) \<Rightarrow> (started, False)
            | (started, True) \<Rightarrow>
                (case mktemp_d env of
                   None \<Rightarrow> (started @ [Mktemp_d], False)
                 | Some dir \<Rightarrow>
                     (case run_commands (succeeds env)
                             (quantize_and_evaluate_commands MODEL_NAME (dir @ ''_venv'')) of
                        (started', done) \<Rightarrow> (started @ [Mktemp_d] @ started', done))))))"

text \<open>The conversions and evaluations among the commands of a run, and what the claim
  says they are: the 16-bit and the 8-bit conversion, then the evaluation of the original
  model, of the 16-bit and of the 8-bit model.\<close>

fun is_conversion_or_evaluation :: "command \<Rightarrow> bool" where
  "is_conversion_or_evaluation (Tensorflowjs_converter i out n src dst) = True"
| "is_conversion_or_evaluation (Yarn args) = (args \<noteq> [])"
| "is_conversion_or_evaluation c = False"

definition expected_steps :: "string \<Rightarrow> command list" where
  "expected_steps MODEL_NAME =
     [Tensorflowjs_converter ''tfjs_layers_model'' ''tfjs_layers_model'' 2
        (''models/'' @ MODEL_NAME @ ''/original/model.json'')
        (''models/'' @ MODEL_NAME @ ''/quantized-16bit''),
      Tensorflowjs_converter ''tfjs_layers_model'' ''tfjs_layers_model'' 1
        (''models/'' @ MODEL_NAME @ ''/original/model.json'')
        (''models/'' @ MODEL_NAME @ ''/quantized-8bit''),
      Yarn [''eval-'' @ MODEL_NAME, ''models/'' @ MODEL_NAME @ ''/original/model.json''],
      Yarn [''eval-'' @ MODEL_NAME, ''models/'' @ MODEL_NAME @ ''/quantized-16bit/model.json''],
      Yarn [''eval-'' @ MODEL_NAME, ''models/'' @ MODEL_NAME @ ''/quantized-8bit/model.json'']]"

text \<open>A machine on which everything is installed and every command succeeds.\<close>

definition example_shell_env :: shell_env where
  "example_shell_env = \<lparr>arg1 = ''mnist'',
     is_file = (\<lambda>p. p = ''models/mnist/original/model.json''),
     which = (\<lambda>c. ''/usr/bin/'' @ c),
     mktemp_d = Some ''/tmp/tmp.abc'',
     succeeds = (\<lambda>c. True)\<rparr>"

section \<open>Properties of createDeepQNetwork\<close>

lemma isInteger_and_gt_int_value:
  "isInteger_and_gt (int_value n) c = (c < of_int n)"
  by (simp add: int_value_def)

lemma isInteger_and_gt_iff:
  "isInteger_and_gt v (of_int c) = (\<exists>n::int. c < n \<and> v = int_value n)"
proof
  assume a: "isInteger_and_gt v (of_int c)"
  then obtain r where v: "v = JNumber (Finite r)" and i: "of_int \<lfloor>r\<rfloor> = r" and g: "of_int c < r"
    by (cases v; (simp; fail)?) (rename_tac x, case_tac x; simp)
  from i g have lt: "c < \<lfloor>r\<rfloor>" by linarith
  have eq: "v = int_value \<lfloor>r\<rfloor>" by (simp only: v int_value_def i)
  from lt eq show "\<exists>n::int. c < n \<and> v = int_value n" by blast
next
  assume "\<exists>n::int. c < n \<and> v = int_value n"
  then show "isInteger_and_gt v (of_int c)"
    by (auto simp: isInteger_and_gt_int_value)
qed

lemma positive_integer_check: "isInteger_and_gt v 0 = is_positive_integer v"
  using isInteger_and_gt_iff [of v 0] by (simp add: is_positive_integer_def)

lemma greater_than_1_check: "isInteger_and_gt v 1 = is_integer_greater_than_1 v"
  using isInteger_and_gt_iff [of v 1] by (simp add: is_integer_greater_than_1_def)

lemma checkArguments_None_iff:
  "checkArguments h w sf na = None \<longleftrightarrow>
     is_positive_integer h \<and> is_positive_integer w \<and> is_positive_integer sf \<and>
     is_integer_greater_than_1 na"
  by (simp add: checkArguments_def positive_integer_check greater_than_1_check)

lemma convOutputLength_int: "convOutputLength (of_int n) 3 1 = of_int (n - 2)"
proof -
  have "((real_of_int n - 3 + 1) + 1 - 1) / 1 = of_int (n - 2)" by simp
  then show ?thesis unfolding convOutputLength_def by (simp only: floor_of_int)
qed

lemma add_first:
  "add tf_sequential (Conv2d 16 3 1 a (Some [of_int h, of_int w, c])) =
     (if 1 < h \<and> 1 < w then
        Inr \<lparr>layers = [Conv2d 16 3 1 a (Some [of_int h, of_int w, c])],
             inputs = [[None, Some (of_int h), Some (of_int w), Some c]],
             outputs = [[None, Some (of_int (h - 2)), Some (of_int (w - 2)), Some 16]]\<rparr>
      else Inl (ValueError ''Negative dimension size caused by adding layer''))"
  by (auto simp: add_def tf_sequential_def firstLayerInput_def convOutputLength_int
      checkShape_def hasNegativeDimension_def)

lemma add_second:
  "add \<lparr>layers = [l1], inputs = i,
        outputs = [[None, Some (of_int (h - 2)), Some (of_int (w - 2)), Some 16]]\<rparr>
       (Conv2d 32 3 1 a None) =
     (if 3 < h \<and> 3 < w then
        Inr \<lparr>layers = [l1, Conv2d 32 3 1 a None], inputs = i,
             outputs = [[None, Some (of_int (h - 4)), Some (of_int (w - 4)), Some 32]]\<rparr>
      else Inl (ValueError ''Negative dimension size caused by adding layer''))"
proof -
  have "h - 2 - 2 = h - 4" "w - 2 - 2 = w - 4" by simp_all
  with convOutputLength_int [of "h - 2"] convOutputLength_int [of "w - 2"]
  have "convOutputLength (of_int (h - 2)) 3 1 = of_int (h - 4)"
    "convOutputLength (of_int (w - 2)) 3 1 = of_int (w - 4)"
    by (simp_all only:)
  then show ?thesis
    by (auto simp: add_def checkShape_def hasNegativeDimension_def)
qed

lemma add_rest:
  assumes "3 < h" "3 < w" "0 \<le> u"
  shows "andThen (add \<lparr>layers = [l1, l2], inputs = i,
             outputs = [[None, Some (of_int (h - 4)), Some (of_int (w - 4)), Some 32]]\<rparr> Flatten) (\<lambda>m3.
         andThen (add m3 (Dense 256 a)) (\<lambda>m4. add m4 (Dense u None))) =
         Inr \<lparr>layers = [l1, l2, Flatten, Dense 256 a, Dense u None], inputs = i,
              outputs = [[None, Some u]]\<rparr>"
proof -
  from assms have "0 \<le> real_of_int (h - 4) * (real_of_int (w - 4) * 32)"
    by (intro mult_nonneg_nonneg) simp_all
  then have "\<not> real_of_int (h - 4) * (real_of_int (w - 4) * 32) < 0" by linarith
  with assms(3) show ?thesis
    by (simp add: andThen_def add_def checkShape_def hasNegativeDimension_def del: of_int_diff)
qed

lemma build_int:
  assumes "0 \<le> u"
  shows "andThen (add tf_sequential (Conv2d 16 3 1 (Some ''relu'') (Some [of_int h, of_int w, c]))) (\<lambda>m1.
   andThen (add m1 (Conv2d 32 3 1 (Some ''relu'') None)) (\<lambda>m2.
   andThen (add m2 Flatten) (\<lambda>m3.
   andThen (add m3 (Dense 256 (Some ''relu''))) (\<lambda>m4.
   add m4 (Dense u None))))) =
   (if 3 < h \<and> 3 < w then
      Inr \<lparr>layers = [Conv2d 16 3 1 (Some ''relu'') (Some [of_int h, of_int w, c]),
                  Conv2d 32 3 1 (Some ''relu'') None, Flatten,
                  Dense 256 (Some ''relu''), Dense u None],
           inputs = [[None, Some (of_int h), Some (of_int w), Some c]],
           outputs = [[None, Some u]]\<rparr>
    else Inl (ValueError ''Negative dimension size caused by adding layer''))"
proof (cases "1 < h \<and> 1 < w")
  case False
  then have n3: "\<not> (3 < h \<and> 3 < w)" by auto
  show ?thesis
    unfolding add_first if_not_P [OF False] andThen_def sum.case if_not_P [OF n3]
    by (rule refl)
next
  case True
  show ?thesis
  proof (cases "3 < h \<and> 3 < w")
    case False
    show ?thesis
      unfolding add_first if_P [OF True] andThen_def sum.case add_second if_not_P [OF False]
      by (rule refl)
  next
    case big: True
    then have h: "3 < h" and w: "3 < w" by simp_all
    note rest = add_rest [OF h w assms, unfolded andThen_def]
    show ?thesis
      unfolding add_first if_P [OF True] andThen_def sum.case add_second if_P [OF big] rest
      by (rule refl)
  qed
qed

lemma numberOf_int_value: "numberOf (int_value n) = of_int n"
  by (simp add: int_value_def)

lemma checkArguments_int_values:
  "checkArguments (int_value h) (int_value w) (int_value sf) (int_value na) = None \<longleftrightarrow>
     0 < h \<and> 0 < w \<and> 0 < sf \<and> 1 < na"
  by (simp add: checkArguments_def isInteger_and_gt_int_value)

lemma createDeepQNetwork_int:
  assumes "0 < h" "0 < w" "0 < sf" "1 < na"
  shows "createDeepQNetwork (int_value h) (int_value w) (int_value sf) (int_value na) =
     (if 3 < h \<and> 3 < w then
        Inr \<lparr>layers = [Conv2d 16 3 1 (Some ''relu'') (Some [of_int h, of_int w, 2 * of_int sf]),
                    Conv2d 32 3 1 (Some ''relu'') None, Flatten,
                    Dense 256 (Some ''relu''), Dense (of_int na) None],
             inputs = [[None, Some (of_int h), Some (of_int w), Some (2 * of_int sf)]],
             outputs = [[None, Some (of_int na)]]\<rparr>
      else Inl (ValueError ''Negative dimension size caused by adding layer''))"
proof -
  from assms have c: "checkArguments (int_value h) (int_value w) (int_value sf) (int_value na) = None"
    by (simp add: checkArguments_int_values)
  from assms have u: "0 \<le> real_of_int na" by simp
  show ?thesis
    unfolding createDeepQNetwork_def c option.case numberOf_int_value
    by (rule build_int [OF u])
qed

lemma createDeepQNetwork_invalid:
  assumes "checkArguments h w sf na = Some e"
  shows "createDeepQNetwork h w sf na = Inl e"
  unfolding createDeepQNetwork_def using assms by simp

lemma names_height:
  "names_parameter ''height''
     (Error [Lit ''Expected height to be a positive integer, but got '', Subst v])"
  by (simp add: sublist_Cons_right)

lemma names_width:
  "names_parameter ''width''
     (Error [Lit ''Expected width to be a positive integer, but got '', Subst v])"
  by (simp add: sublist_Cons_right)

lemma names_stateFrames:
  "names_parameter ''stateFrames''
     (Error [Lit ''Expected stateFrames to be a positive integer, but got '', Subst v])"
  by (simp add: sublist_Cons_right)

lemma names_numActions:
  "names_parameter ''numActions''
     (Error [Lit ''Expected numActions to be a integer greater than 1, '',
             Lit ''but got '', Subst v])"
  by (simp add: sublist_Cons_right)

lemma int_value_eq_iff: "int_value m = int_value n \<longleftrightarrow> m = n"
  by (simp add: int_value_def)

lemma is_positive_integer_int_value: "is_positive_integer (int_value n) \<longleftrightarrow> 0 < n"
  by (auto simp: is_positive_integer_def int_value_eq_iff)

lemma is_integer_greater_than_1_int_value:
  "is_integer_greater_than_1 (int_value n) \<longleftrightarrow> 1 < n"
  by (auto simp: is_integer_greater_than_1_def int_value_eq_iff)

lemma not_integer_JString:
  "\<not> is_positive_integer (JString s)" "\<not> is_integer_greater_than_1 (JString s)"
  by (simp_all add: is_positive_integer_def is_integer_greater_than_1_def int_value_def)

lemma not_integer_JUndefined:
  "\<not> is_positive_integer JUndefined" "\<not> is_integer_greater_than_1 JUndefined"
  by (simp_all add: is_positive_integer_def is_integer_greater_than_1_def int_value_def)

lemma is_integer_greater_than_3_int_value:
  "is_integer_greater_than_3 (int_value n) \<longleftrightarrow> 3 < n"
  by (auto simp: is_integer_greater_than_3_def int_value_eq_iff)

lemma createDeepQNetwork_valid:
  assumes "checkArguments h w sf na = None"
  shows "(\<exists>m. createDeepQNetwork h w sf na = Inr m) \<longleftrightarrow>
           is_integer_greater_than_3 h \<and> is_integer_greater_than_3 w"
    and "\<not> (is_integer_greater_than_3 h \<and> is_integer_greater_than_3 w) \<Longrightarrow>
           createDeepQNetwork h w sf na =
             Inl (ValueError ''Negative dimension size caused by adding layer'')"
proof -
  from assms obtain hh ww ss nn where v: "h = int_value hh" "w = int_value ww"
    "sf = int_value ss" "na = int_value nn" and p: "0 < hh" "0 < ww" "0 < ss" "1 < nn"
    by (auto simp: checkArguments_None_iff is_positive_integer_def
        is_integer_greater_than_1_def)
  note c = createDeepQNetwork_int [OF p]
  show "(\<exists>m. createDeepQNetwork h w sf na = Inr m) \<longleftrightarrow>
           is_integer_greater_than_3 h \<and> is_integer_greater_than_3 w"
    unfolding v c is_integer_greater_than_3_int_value by simp
  show "createDeepQNetwork h w sf na =
             Inl (ValueError ''Negative dimension size caused by adding layer'')"
    if "\<not> (is_integer_greater_than_3 h \<and> is_integer_greater_than_3 w)"
    using that unfolding v c is_integer_greater_than_3_int_value by simp
qed

text \<open>
  Claim C1, as the code has it. For integers \<open>h\<close> and \<open>w\<close> greater than 3, a positive
  integer \<open>stateFrames\<close> and an integer \<open>numActions\<close> greater than one,
  \<^verbatim>\<open>createDeepQNetwork\<close> returns a sequential model made of two \<^verbatim>\<open>conv2d\<close> layers, a
  \<^verbatim>\<open>flatten\<close> layer and two \<^verbatim>\<open>dense\<close> layers, whose input shape is
  \<^verbatim>\<open>[null, h, w, 2 * stateFrames]\<close> and whose output shape is \<^verbatim>\<open>[null, numActions]\<close>.
\<close>

theorem createDeepQNetwork_shapes:
  assumes "3 < h" and "3 < w" and "0 < stateFrames" and "1 < numActions"
  shows "createDeepQNetwork (int_value h) (int_value w) (int_value stateFrames)
           (int_value numActions) =
     Inr \<lparr>layers = [Conv2d 16 3 1 (Some ''relu'')
                      (Some [of_int h, of_int w, 2 * of_int stateFrames]),
                    Conv2d 32 3 1 (Some ''relu'') None, Flatten,
                    Dense 256 (Some ''relu''), Dense (of_int numActions) None],
          inputs = [[None, Some (of_int h), Some (of_int w), Some (2 * of_int stateFrames)]],
          outputs = [[None, Some (of_int numActions)]]\<rparr>"
proof -
  from assms have "0 < h" "0 < w" by simp_all
  from createDeepQNetwork_int [OF this assms(3,4)] assms(1,2) show ?thesis by simp
qed

theorem createDeepQNetwork_shapes_witness:
  "createDeepQNetwork (int_value 9) (int_value 9) (int_value 1) (int_value 4) =
     Inr \<lparr>layers = [Conv2d 16 3 1 (Some ''relu'') (Some [9, 9, 2]),
                    Conv2d 32 3 1 (Some ''relu'') None, Flatten,
                    Dense 256 (Some ''relu''), Dense 4 None],
          inputs = [[None, Some 9, Some 9, Some 2]],
          outputs = [[None, Some 4]]\<rparr>"
  using createDeepQNetwork_shapes [of 9 9 1 4] by simp

text \<open>On a board of 3 by 3 the second convolution would have the output size -1: the
  library refuses the layer, and no model is returned, although all four arguments are
  positive integers.\<close>

theorem createDeepQNetwork_small_board:
  "(0::int) < 3 \<and> (1::int) < 2 \<and>
   createDeepQNetwork (int_value 3) (int_value 3) (int_value 1) (int_value 2) =
     Inl (ValueError ''Negative dimension size caused by adding layer'')"
proof -
  have "createDeepQNetwork (int_value 3) (int_value 3) (int_value 1) (int_value 2) =
     Inl (ValueError ''Negative dimension size caused by adding layer'')"
    by (subst createDeepQNetwork_int) simp_all
  then show ?thesis by simp
qed

text \<open>
  Claim C2, as the code has it. \<^verbatim>\<open>createDeepQNetwork\<close> throws exactly when \<open>h\<close> is not a
  positive integer, or \<open>w\<close> is not, or \<open>stateFrames\<close> is not, or \<open>numActions\<close> is not an
  integer greater than one, or \<open>h\<close> or \<open>w\<close> is not greater than 3. The checks of the
  arguments come first and are made in that order, and the message of their error names
  the first parameter that fails: height, width, stateFrames, numActions. With four valid
  arguments and a side of the board below 4 the error is the library's, for the negative
  dimension.
\<close>

theorem createDeepQNetwork_throws_iff:
  "((\<exists>e. createDeepQNetwork h w stateFrames numActions = Inl e) \<longleftrightarrow>
      \<not> is_positive_integer h \<or> \<not> is_positive_integer w \<or>
      \<not> is_positive_integer stateFrames \<or> \<not> is_integer_greater_than_1 numActions \<or>
      \<not> is_integer_greater_than_3 h \<or> \<not> is_integer_greater_than_3 w) \<and>
   (\<not> is_positive_integer h \<longrightarrow>
      (\<exists>e. createDeepQNetwork h w stateFrames numActions = Inl e \<and>
           names_parameter ''height'' e)) \<and>
   (is_positive_integer h \<and> \<not> is_positive_integer w \<longrightarrow>
      (\<exists>e. createDeepQNetwork h w stateFrames numActions = Inl e \<and>
           names_parameter ''width'' e)) \<and>
   (is_positive_integer h \<and> is_positive_integer w \<and> \<not> is_positive_integer stateFrames \<longrightarrow>
      (\<exists>e. createDeepQNetwork h w stateFrames numActions = Inl e \<and>
           names_parameter ''stateFrames'' e)) \<and>
   (is_positive_integer h \<and> is_positive_integer w \<and> is_positive_integer stateFrames \<and>
    \<not> is_integer_greater_than_1 numActions \<longrightarrow>
      (\<exists>e. createDeepQNetwork h w stateFrames numActions = Inl e \<and>
           names_parameter ''numActions'' e)) \<and>
   (is_positive_integer h \<and> is_positive_integer w \<and> is_positive_integer stateFrames \<and>
    is_integer_greater_than_1 numActions \<and>
    \<not> (is_integer_greater_than_3 h \<and> is_integer_greater_than_3 w) \<longrightarrow>
      createDeepQNetwork h w stateFrames numActions =
        Inl (ValueError ''Negative dimension size caused by adding layer''))"
proof (intro conjI impI)
  show "(\<exists>e. createDeepQNetwork h w stateFrames numActions = Inl e) \<longleftrightarrow>
      \<not> is_positive_integer h \<or> \<not> is_positive_integer w \<or>
      \<not> is_positive_integer stateFrames \<or> \<not> is_integer_greater_than_1 numActions \<or>
      \<not> is_integer_greater_than_3 h \<or> \<not> is_integer_greater_than_3 w"
  proof (cases "checkArguments h w stateFrames numActions")
    case None
    have "(\<exists>e. createDeepQNetwork h w stateFrames numActions = Inl e) \<longleftrightarrow>
          \<not> (\<exists>m. createDeepQNetwork h w stateFrames numActions = Inr m)"
      by (cases "createDeepQNetwork h w stateFrames numActions") simp_all
    with createDeepQNetwork_valid(1) [OF None] None show ?thesis
      by (simp add: checkArguments_None_iff)
  next
    case (Some e)
    from createDeepQNetwork_invalid [OF Some] Some checkArguments_None_iff [of h w stateFrames numActions]
    show ?thesis by auto
  qed
next
  assume "\<not> is_positive_integer h"
  then have "checkArguments h w stateFrames numActions =
      Some (Error [Lit ''Expected height to be a positive integer, but got '', Subst h])"
    by (simp add: checkArguments_def positive_integer_check)
  from createDeepQNetwork_invalid [OF this] names_height [of h]
  show "\<exists>e. createDeepQNetwork h w stateFrames numActions = Inl e \<and>
           names_parameter ''height'' e" by blast
next
  assume "is_positive_integer h \<and> \<not> is_positive_integer w"
  then have "checkArguments h w stateFrames numActions =
      Some (Error [Lit ''Expected width to be a positive integer, but got '', Subst w])"
    by (simp add: checkArguments_def positive_integer_check)
  from createDeepQNetwork_invalid [OF this] names_width [of w]
  show "\<exists>e. createDeepQNetwork h w stateFrames numActions = Inl e \<and>
           names_parameter ''width'' e" by blast
next
  assume "is_positive_integer h \<and> is_positive_integer w \<and> \<not> is_positive_integer stateFrames"
  then have "checkArguments h w stateFrames numActions =
      Some (Error [Lit ''Expected stateFrames to be a positive integer, but got '', Subst w])"
    by (simp add: checkArguments_def positive_integer_check)
  from createDeepQNetwork_invalid [OF this] names_stateFrames [of w]
  show "\<exists>e. createDeepQNetwork h w stateFrames numActions = Inl e \<and>
           names_parameter ''stateFrames'' e" by blast
next
  assume "is_positive_integer h \<and> is_positive_integer w \<and> is_positive_integer stateFrames \<and>
    \<not> is_integer_greater_than_1 numActions"
  then have "checkArguments h w stateFrames numActions =
      Some (Error [Lit ''Expected numActions to be a integer greater than 1, '',
                   Lit ''but got '', Subst numActions])"
    by (simp add: checkArguments_def positive_integer_check greater_than_1_check)
  from createDeepQNetwork_invalid [OF this] names_numActions [of numActions]
  show "\<exists>e. createDeepQNetwork h w stateFrames numActions = Inl e \<and>
           names_parameter ''numActions'' e" by blast
next
  assume a: "is_positive_integer h \<and> is_positive_integer w \<and> is_positive_integer stateFrames \<and>
    is_integer_greater_than_1 numActions \<and>
    \<not> (is_integer_greater_than_3 h \<and> is_integer_greater_than_3 w)"
  then have "checkArguments h w stateFrames numActions = None"
    by (simp add: checkArguments_None_iff)
  from createDeepQNetwork_valid(2) [OF this] a
  show "createDeepQNetwork h w stateFrames numActions =
        Inl (ValueError ''Negative dimension size caused by adding layer'')" by blast
qed

theorem createDeepQNetwork_throws_iff_witness:
  "(\<exists>e. createDeepQNetwork (int_value 0) (int_value 10) (int_value 1) (int_value 4) = Inl e \<and>
        names_parameter ''height'' e) \<and>
   (\<exists>e. createDeepQNetwork (int_value 10) (JString ''10'') (int_value 1) (int_value 4) = Inl e \<and>
        names_parameter ''width'' e) \<and>
   (\<exists>e. createDeepQNetwork (int_value 10) (int_value 10) JUndefined (int_value 4) = Inl e \<and>
        names_parameter ''stateFrames'' e) \<and>
   (\<exists>e. createDeepQNetwork (int_value 10) (int_value 10) (int_value 1) (int_value 1) = Inl e \<and>
        names_parameter ''numActions'' e) \<and>
   createDeepQNetwork (int_value 10) (int_value 2) (int_value 1) (int_value 4) =
     Inl (ValueError ''Negative dimension size caused by adding layer'') \<and>
   (\<nexists>e. createDeepQNetwork (int_value 9) (int_value 9) (int_value 1) (int_value 4) = Inl e)"
proof (intro conjI)
  show "\<exists>e. createDeepQNetwork (int_value 0) (int_value 10) (int_value 1) (int_value 4) = Inl e \<and>
        names_parameter ''height'' e"
    using createDeepQNetwork_throws_iff [of "int_value 0" "int_value 10" "int_value 1" "int_value 4"]
    by (simp add: is_positive_integer_int_value)
  show "\<exists>e. createDeepQNetwork (int_value 10) (JString ''10'') (int_value 1) (int_value 4) = Inl e \<and>
        names_parameter ''width'' e"
    using createDeepQNetwork_throws_iff [of "int_value 10" "JString ''10''" "int_value 1" "int_value 4"]
    by (simp add: is_positive_integer_int_value not_integer_JString)
  show "\<exists>e. createDeepQNetwork (int_value 10) (int_value 10) JUndefined (int_value 4) = Inl e \<and>
        names_parameter ''stateFrames'' e"
    using createDeepQNetwork_throws_iff [of "int_value 10" "int_value 10" JUndefined "int_value 4"]
    by (simp add: is_positive_integer_int_value not_integer_JUndefined)
  show "\<exists>e. createDeepQNetwork (int_value 10) (int_value 10) (int_value 1) (int_value 1) = Inl e \<and>
        names_parameter ''numActions'' e"
    using createDeepQNetwork_throws_iff [of "int_value 10" "int_value 10" "int_value 1" "int_value 1"]
    by (simp add: is_positive_integer_int_value is_integer_greater_than_1_int_value)
  show "createDeepQNetwork (int_value 10) (int_value 2) (int_value 1) (int_value 4) =
     Inl (ValueError ''Negative dimension size caused by adding layer'')"
    using createDeepQNetwork_throws_iff [of "int_value 10" "int_value 2" "int_value 1" "int_value 4"]
    by (simp add: is_positive_integer_int_value is_integer_greater_than_1_int_value
        is_integer_greater_than_3_int_value)
  show "\<nexists>e. createDeepQNetwork (int_value 9) (int_value 9) (int_value 1) (int_value 4) = Inl e"
    using createDeepQNetwork_throws_iff [of "int_value 9" "int_value 9" "int_value 1" "int_value 4"]
    by (simp add: is_positive_integer_int_value is_integer_greater_than_1_int_value
        is_integer_greater_than_3_int_value)
qed

text \<open>With the four arguments 1, 1, 1 and 2 every check of the arguments passes, and yet an
  error is thrown: the equivalence of the claim fails there.\<close>

theorem createDeepQNetwork_throws_on_valid_arguments:
  "\<not> ((\<exists>e. createDeepQNetwork (int_value 1) (int_value 1) (int_value 1) (int_value 2) = Inl e) \<longleftrightarrow>
       \<not> is_positive_integer (int_value 1) \<or> \<not> is_positive_integer (int_value 1) \<or>
       \<not> is_positive_integer (int_value 1) \<or> \<not> is_integer_greater_than_1 (int_value 2))"
proof -
  have "createDeepQNetwork (int_value 1) (int_value 1) (int_value 1) (int_value 2) =
     Inl (ValueError ''Negative dimension size caused by adding layer'')"
    by (subst createDeepQNetwork_int) simp_all
  then show ?thesis
    by (simp add: is_positive_integer_int_value is_integer_greater_than_1_int_value)
qed

section \<open>Properties of copyWeights\<close>

lemma batchSetValue_other:
  "a \<notin> set as \<Longrightarrow> batchSetValue (zip as vs) s a = s a"
  unfolding batchSetValue_def
  by (induction as arbitrary: vs s) (auto simp: zip_Cons1 split: list.splits)

lemma batchSetValue_map:
  "distinct as \<Longrightarrow> length as = length vs \<Longrightarrow> map (batchSetValue (zip as vs) s) as = vs"
proof (induction as arbitrary: vs s)
  case Nil
  then show ?case by simp
next
  case (Cons a as)
  then obtain v vs' where vs: "vs = v # vs'" by (cases vs) auto
  have step: "batchSetValue ((a, v) # zip as vs') s = batchSetValue (zip as vs') (s(a := v))"
    by (simp add: batchSetValue_def)
  from Cons.prems have "a \<notin> set as" by simp
  then have head: "batchSetValue (zip as vs') (s(a := v)) a = v"
    by (simp add: batchSetValue_other)
  from Cons.prems vs have "map (batchSetValue (zip as vs') (s(a := v))) as = vs'"
    by (intro Cons.IH) auto
  with head show ?case by (simp add: step vs)
qed

lemma map_cong_outside:
  "list_all (\<lambda>a. a \<notin> B) as \<Longrightarrow> (\<And>a. a \<notin> B \<Longrightarrow> f a = g a) \<Longrightarrow> map f as = map g as"
  by (induction as) auto

text \<open>
  Claim C3. After \<^verbatim>\<open>copyWeights(destNetwork, srcNetwork)\<close> every weight of the
  destination has the value of the corresponding weight of the source, and the copy is by
  value: a later modification of the source's weights leaves the destination's weights as
  they are. The two networks are separate networks of the same architecture; then the call
  returns.
\<close>

theorem copyWeights_by_value:
  assumes sep: "separate destNetwork srcNetwork"
  shows "(same_architecture destNetwork srcNetwork s \<longrightarrow>
            (\<exists>s'. copyWeights destNetwork srcNetwork s = Inr s')) \<and>
         (\<forall>s'. copyWeights destNetwork srcNetwork s = Inr s' \<longrightarrow>
            getWeights destNetwork s' = getWeights srcNetwork s' \<and>
            getWeights srcNetwork s' = getWeights srcNetwork s \<and>
            (\<forall>s''. modifies_only srcNetwork s' s'' \<longrightarrow>
               getWeights destNetwork s'' = getWeights destNetwork s'))"
proof (intro conjI allI impI)
  assume "same_architecture destNetwork srcNetwork s"
  then have "length (weights destNetwork) = length (weights srcNetwork)"
    and "list_all2 (\<lambda>pv w. t_shape pv = t_shape w)
           (map s (weights destNetwork)) (map s (weights srcNetwork))"
    by (simp_all add: same_architecture_def list_all2_map1 list_all2_map2)
  then show "\<exists>s'. copyWeights destNetwork srcNetwork s = Inr s'"
    by (simp add: copyWeights_def setWeights_def getWeights_def)
next
  fix s'
  assume c: "copyWeights destNetwork srcNetwork s = Inr s'"
  then have len: "length (weights destNetwork) = length (getWeights srcNetwork s)"
    and s': "s' = batchSetValue (zip (weights destNetwork) (getWeights srcNetwork s)) s"
    by (auto simp: copyWeights_def setWeights_def split: if_splits)
  from sep have d: "distinct (weights destNetwork)"
    and out: "list_all (\<lambda>a. a \<notin> set (weights srcNetwork)) (weights destNetwork)"
    by (simp_all add: separate_def)
  have dest: "getWeights destNetwork s' = getWeights srcNetwork s"
    unfolding s' getWeights_def [of destNetwork] using d len by (rule batchSetValue_map)
  have src: "getWeights srcNetwork s' = getWeights srcNetwork s"
    unfolding getWeights_def s'
  proof (rule map_cong [OF refl])
    fix a assume "a \<in> set (weights srcNetwork)"
    with out have "a \<notin> set (weights destNetwork)" by (auto simp: list_all_iff)
    then show "batchSetValue (zip (weights destNetwork) (map s (weights srcNetwork))) s a = s a"
      by (rule batchSetValue_other)
  qed
  show "getWeights destNetwork s' = getWeights srcNetwork s'" by (simp add: dest src)
  show "getWeights srcNetwork s' = getWeights srcNetwork s" by (rule src)
  fix s''
  assume m: "modifies_only srcNetwork s' s''"
  show "getWeights destNetwork s'' = getWeights destNetwork s'"
    unfolding getWeights_def
    by (rule map_cong_outside [OF out]) (use m in \<open>simp add: modifies_only_def\<close>)
qed

theorem copyWeights_by_value_witness:
  "\<exists>s'. copyWeights \<lparr>weights = [0, 1]\<rparr> \<lparr>weights = [2, 3]\<rparr>
            (\<lambda>a. \<lparr>t_shape = [1], t_values = [real a]\<rparr>) = Inr s' \<and>
        getWeights \<lparr>weights = [0, 1]\<rparr> s' =
          [\<lparr>t_shape = [1], t_values = [2]\<rparr>, \<lparr>t_shape = [1], t_values = [3]\<rparr>] \<and>
        getWeights \<lparr>weights = [0, 1]\<rparr> (s'(2 := \<lparr>t_shape = [1], t_values = [7]\<rparr>)) =
          [\<lparr>t_shape = [1], t_values = [2]\<rparr>, \<lparr>t_shape = [1], t_values = [3]\<rparr>]"
proof -
  let ?D = "\<lparr>weights = [0, 1]\<rparr>" and ?S = "\<lparr>weights = [2, 3]\<rparr>"
  let ?s = "\<lambda>a::nat. \<lparr>t_shape = [1], t_values = [real a]\<rparr>"
  have sep: "separate ?D ?S" by (simp add: separate_def)
  have arch: "same_architecture ?D ?S ?s" by (simp add: same_architecture_def)
  note main = copyWeights_by_value [OF sep, of ?s]
  from main arch obtain s' where r: "copyWeights ?D ?S ?s = Inr s'" by blast
  from main r have eq: "getWeights ?D s' = getWeights ?S s'"
    and src: "getWeights ?S s' = getWeights ?S ?s"
    and frame: "\<And>s''. modifies_only ?S s' s'' \<Longrightarrow> getWeights ?D s'' = getWeights ?D s'"
    by blast+
  have m: "modifies_only ?S s' (s'(2 := \<lparr>t_shape = [1], t_values = [7]\<rparr>))"
    by (simp add: modifies_only_def)
  have v: "getWeights ?S ?s =
      [\<lparr>t_shape = [1], t_values = [2]\<rparr>, \<lparr>t_shape = [1], t_values = [3]\<rparr>]"
    by (simp add: getWeights_def)
  from r eq src v frame [OF m] show ?thesis by (intro exI [of _ s']) simp
qed

section \<open>Properties of loadFeatures\<close>

lemma drop_four:
  assumes "index + 4 \<le> length buffer"
  shows "drop index buffer = buffer ! index # buffer ! (index + 1) # buffer ! (index + 2) #
           buffer ! (index + 3) # drop (index + 4) buffer"
proof -
  have a: "drop index buffer = buffer ! index # drop (index + 1) buffer"
    using assms Cons_nth_drop_Suc [of index buffer] by (simp add: eval_nat_numeral)
  have b: "drop (index + 1) buffer = buffer ! (index + 1) # drop (index + 2) buffer"
    using assms Cons_nth_drop_Suc [of "index + 1" buffer] by (simp add: eval_nat_numeral)
  have c: "drop (index + 2) buffer = buffer ! (index + 2) # drop (index + 3) buffer"
    using assms Cons_nth_drop_Suc [of "index + 2" buffer] by (simp add: eval_nat_numeral)
  have d: "drop (index + 3) buffer = buffer ! (index + 3) # drop (index + 4) buffer"
    using assms Cons_nth_drop_Suc [of "index + 3" buffer] by (simp add: eval_nat_numeral)
  show ?thesis by (simp only: a b c d)
qed

lemma int32s_short: "length bs < 4 \<Longrightarrow> int32s bs = []"
  by (cases bs rule: int32s.cases) auto

lemma loop_refines:
  "loadFeatures_loop buffer numWords index sequences seq = Inr r \<Longrightarrow>
   r = split_values numWords (index > 0) (int32s (drop index buffer)) sequences seq"
proof (induction buffer numWords index sequences seq rule: loadFeatures_loop.induct)
  case (1 buffer numWords index sequences seq)
  note step = loadFeatures_loop.simps [of buffer numWords index sequences seq]
  note ret = "1.prems"(1) [unfolded step]
  show ?case
  proof (cases "index < length buffer")
    case False
    with ret show ?thesis by simp
  next
    case True
    show ?thesis
    proof (cases "index + 4 \<le> length buffer")
      case False
      with True ret show ?thesis by (simp add: readInt32LE_def)
    next
      case four: True
      have "\<exists>v. readInt32LE buffer index = Inr v \<and>
                int32s (drop index buffer) = v # int32s (drop (index + 4) buffer)"
        using four by (subst drop_four [OF four]) (simp add: readInt32LE_def)
      then obtain v where rd: "readInt32LE buffer index = Inr v"
        and dr: "int32s (drop index buffer) = v # int32s (drop (index + 4) buffer)"
        by blast
      show ?thesis
      proof (cases "v = 1")
        case True
        with ret \<open>index < length buffer\<close> rd
        have "loadFeatures_loop buffer numWords (index + 4)
                 (if index > 0 then sequences @ [seq] else sequences) [] = Inr r"
          by simp
        from "1.IH"(1) [OF \<open>index < length buffer\<close> rd True this]
        show ?thesis using True by (simp add: dr)
      next
        case False
        with ret \<open>index < length buffer\<close> rd
        have "loadFeatures_loop buffer numWords (index + 4) sequences
                 (seq @ [if v \<ge> numWords then OOV_CHAR else v]) = Inr r"
          by simp
        from "1.IH"(2) [OF \<open>index < length buffer\<close> rd False this]
        show ?thesis using False by (simp add: dr recorded_def OOV_CHAR_def)
      qed
    qed
  qed
qed

lemma loop_returns:
  "4 dvd length buffer \<Longrightarrow> 4 dvd index \<Longrightarrow>
   \<exists>r. loadFeatures_loop buffer numWords index sequences seq = Inr r"
proof (induction buffer numWords index sequences seq rule: loadFeatures_loop.induct)
  case (1 buffer numWords index sequences seq)
  note step = loadFeatures_loop.simps [of buffer numWords index sequences seq]
  show ?case
  proof (cases "index < length buffer")
    case False
    then show ?thesis unfolding step by simp
  next
    case True
    with "1.prems" have four: "index + 4 \<le> length buffer" by (auto elim!: dvdE)
    then obtain v where rd: "readInt32LE buffer index = Inr v" by (simp add: readInt32LE_def)
    from "1.prems" have nx: "4 dvd index + 4" by simp
    show ?thesis
    proof (cases "v = 1")
      case True
      from "1.IH"(1) [OF \<open>index < length buffer\<close> rd True "1.prems"(1) nx]
      show ?thesis unfolding step using \<open>index < length buffer\<close> rd True by simp
    next
      case False
      from "1.IH"(2) [OF \<open>index < length buffer\<close> rd False "1.prems"(1) nx]
      show ?thesis unfolding step using \<open>index < length buffer\<close> rd False by simp
    qed
  qed
qed

lemma split_values_concat:
  "split_values numWords started vs sequences seq = (S, q) \<Longrightarrow>
   (\<not> started \<longrightarrow> seq = []) \<Longrightarrow>
   concat S @ q = concat sequences @ seq @ map (recorded numWords) (filter (\<lambda>v. v \<noteq> 1) vs)"
proof (induction vs arbitrary: started sequences seq)
  case Nil
  then show ?case by simp
next
  case (Cons v vs)
  show ?case
  proof (cases "v = 1")
    case True
    with Cons.prems have
      "split_values numWords True vs (if started then sequences @ [seq] else sequences) [] = (S, q)"
      by simp
    from Cons.IH [OF this] Cons.prems(2) True show ?thesis by (cases started) simp_all
  next
    case False
    with Cons.prems have
      "split_values numWords True vs sequences (seq @ [recorded numWords v]) = (S, q)"
      by simp
    from Cons.IH [OF this] False show ?thesis by simp
  qed
qed

lemma split_values_run:
  "1 \<notin> set g \<Longrightarrow>
   split_values numWords started (g @ rest) sequences seq =
   split_values numWords (started \<or> g \<noteq> []) rest sequences (seq @ map (recorded numWords) g)"
  by (induction g arbitrary: started seq) auto

lemma split_values_groups:
  "groups \<noteq> [] \<Longrightarrow> \<forall>g \<in> set groups. 1 \<notin> set g \<Longrightarrow>
   split_values numWords started (concat (map (\<lambda>g. 1 # g) groups)) sequences seq =
     ((if started then sequences @ [seq] else sequences) @
        map (map (recorded numWords)) (butlast groups),
      map (recorded numWords) (last groups))"
proof (induction groups arbitrary: started sequences seq)
  case Nil
  then show ?case by simp
next
  case (Cons g groups)
  show ?case
  proof (cases "groups = []")
    case True
    with Cons.prems show ?thesis
      using split_values_run [of g numWords True "[]" _ "[]"] by simp
  next
    case False
    with Cons.prems Cons.IH [OF False, of True] show ?thesis
      by (simp add: split_values_run)
  qed
qed

lemma loop_length:
  "loadFeatures_loop buffer numWords index sequences seq = Inr r \<Longrightarrow>
   index \<le> length buffer \<Longrightarrow> 4 dvd index \<Longrightarrow> 4 dvd length buffer"
proof (induction buffer numWords index sequences seq rule: loadFeatures_loop.induct)
  case (1 buffer numWords index sequences seq)
  note step = loadFeatures_loop.simps [of buffer numWords index sequences seq]
  note ret = "1.prems"(1) [unfolded step]
  show ?case
  proof (cases "index < length buffer")
    case False
    with "1.prems" show ?thesis by simp
  next
    case True
    show ?thesis
    proof (cases "index + 4 \<le> length buffer")
      case False
      with True ret show ?thesis by (simp add: readInt32LE_def)
    next
      case four: True
      then obtain v where rd: "readInt32LE buffer index = Inr v" by (simp add: readInt32LE_def)
      from "1.prems" have nx: "4 dvd index + 4" by simp
      show ?thesis
      proof (cases "v = 1")
        case True
        with ret \<open>index < length buffer\<close> rd
        have "loadFeatures_loop buffer numWords (index + 4)
                 (if index > 0 then sequences @ [seq] else sequences) [] = Inr r"
          by simp
        from "1.IH"(1) [OF \<open>index < length buffer\<close> rd True this four nx]
        show ?thesis .
      next
        case False
        with ret \<open>index < length buffer\<close> rd
        have "loadFeatures_loop buffer numWords (index + 4) sequences
                 (seq @ [if v \<ge> numWords then OOV_CHAR else v]) = Inr r"
          by simp
        from "1.IH"(2) [OF \<open>index < length buffer\<close> rd False this four nx]
        show ?thesis .
      qed
    qed
  qed
qed

lemma loadFeatures_sequences_returns_iff:
  "(\<exists>sequences. loadFeatures_sequences buffer numWords = Inr sequences) \<longleftrightarrow>
   4 dvd length buffer"
proof
  assume "\<exists>sequences. loadFeatures_sequences buffer numWords = Inr sequences"
  then obtain r where "loadFeatures_loop buffer numWords 0 [] [] = Inr r"
    by (auto simp: loadFeatures_sequences_def split: sum.splits)
  from loop_length [OF this] show "4 dvd length buffer" by simp
next
  assume "4 dvd length buffer"
  from loop_returns [OF this, of 0 numWords "[]" "[]"]
  show "\<exists>sequences. loadFeatures_sequences buffer numWords = Inr sequences"
    by (auto simp: loadFeatures_sequences_def split: prod.splits)
qed

lemma loadFeatures_sequences_split:
  assumes "loadFeatures_sequences buffer numWords = Inr sequences"
  shows "\<exists>S q. split_values numWords False (int32s buffer) [] [] = (S, q) \<and>
           sequences = (if q \<noteq> [] then S @ [q] else S)"
proof -
  from assms obtain S q where l: "loadFeatures_loop buffer numWords 0 [] [] = Inr (S, q)"
    and s: "sequences = (if length q > 0 then S @ [q] else S)"
    by (auto simp: loadFeatures_sequences_def split: sum.splits prod.splits)
  from loop_refines [OF l] have "split_values numWords False (int32s buffer) [] [] = (S, q)"
    by simp
  moreover from s have "sequences = (if q \<noteq> [] then S @ [q] else S)" by simp
  ultimately show ?thesis by blast
qed

lemma loadFeatures_sequences_concat:
  assumes "loadFeatures_sequences buffer numWords = Inr sequences"
  shows "concat sequences = map (recorded numWords) (filter (\<lambda>v. v \<noteq> 1) (int32s buffer))"
proof -
  from loadFeatures_sequences_split [OF assms] obtain S q
    where sp: "split_values numWords False (int32s buffer) [] [] = (S, q)"
      and s: "sequences = (if q \<noteq> [] then S @ [q] else S)" by blast
  from split_values_concat [OF sp] have "concat S @ q =
      map (recorded numWords) (filter (\<lambda>v. v \<noteq> 1) (int32s buffer))" by simp
  with s show ?thesis by (cases "q = []") simp_all
qed

lemma loadFeatures_sequences_groups:
  assumes "loadFeatures_sequences buffer numWords = Inr sequences"
    and "int32s buffer = concat (map (\<lambda>g. 1 # g) groups)"
    and "\<forall>g \<in> set groups. g \<noteq> [] \<and> 1 \<notin> set g"
  shows "sequences = map (map (recorded numWords)) groups"
proof -
  from loadFeatures_sequences_split [OF assms(1)] obtain S q
    where sp: "split_values numWords False (int32s buffer) [] [] = (S, q)"
      and s: "sequences = (if q \<noteq> [] then S @ [q] else S)" by blast
  show ?thesis
  proof (cases "groups = []")
    case True
    with assms(2) sp s show ?thesis by simp
  next
    case False
    from assms(3) have "\<forall>g \<in> set groups. 1 \<notin> set g" by blast
    from split_values_groups [OF False this, of numWords False "[]" "[]"] sp assms(2)
    have S: "S = map (map (recorded numWords)) (butlast groups)"
      and q: "q = map (recorded numWords) (last groups)" by simp_all
    from False assms(3) have "last groups \<noteq> []" by simp
    with q have "q \<noteq> []" by simp
    with s S q have "sequences = map (map (recorded numWords)) (butlast groups @ [last groups])"
      by simp
    with False show ?thesis by simp
  qed
qed

lemma padSequences_pre:
  "padSequences sequences maxLen ''pre'' ''pre'' v =
     map (\<lambda>seq. replicate (maxLen - length seq) v @ drop (length seq - maxLen) seq) sequences"
  unfolding padSequences_def by (rule map_cong [OF refl]) (simp add: Let_def)

lemma recorded_cases: "recorded numWords v = 2 \<or> recorded numWords v < numWords"
  by (simp add: recorded_def)

lemma loadFeatures_unfold:
  "loadFeatures fs filePath numWords maxLen = Inr t \<longleftrightarrow>
   (\<exists>buffer sequences. files fs filePath = Some buffer \<and>
      loadFeatures_sequences buffer numWords = Inr sequences \<and>
      t = \<lparr>dims = [length sequences, maxLen], dtype = ''int32'',
           rows = map (\<lambda>seq. replicate (maxLen - length seq) 0 @
                               drop (length seq - maxLen) seq) sequences\<rparr>)"
  by (auto simp: loadFeatures_def readFileSync_def padSequences_pre PAD_CHAR_def Let_def
      tf_tensor2d_def list_all_iff split: option.splits sum.splits)

text \<open>
  Claim C6. \<^verbatim>\<open>loadFeatures\<close> reads the file as consecutive little-endian 32-bit integers
  (it returns exactly when the file is there and its length is a multiple of four). The
  value 1 starts a new sequence; every other value \<open>v\<close> is recorded as 2 when
  \<open>v \<ge> numWords\<close> and as \<open>v\<close> otherwise, in the order of the file. The sequences are
  padded and truncated in front to length \<open>maxLen\<close> with 0, so the tensor has the shape
  \<open>[numberOfSequences, maxLen]\<close> and each of its entries is 0, 2 or less than \<open>numWords\<close>.
\<close>

theorem loadFeatures_entries:
  "((\<exists>t. loadFeatures fs filePath numWords maxLen = Inr t) \<longleftrightarrow>
      (\<exists>buffer. files fs filePath = Some buffer \<and> 4 dvd length buffer)) \<and>
   (\<forall>t. loadFeatures fs filePath numWords maxLen = Inr t \<longrightarrow>
      (\<exists>buffer sequences.
         files fs filePath = Some buffer \<and>
         loadFeatures_sequences buffer numWords = Inr sequences \<and>
         concat sequences =
           map (recorded numWords) (filter (\<lambda>v. v \<noteq> 1) (int32s buffer)) \<and>
         (\<forall>groups. int32s buffer = concat (map (\<lambda>g. 1 # g) groups) \<and>
                   (\<forall>g \<in> set groups. g \<noteq> [] \<and> 1 \<notin> set g) \<longrightarrow>
                   sequences = map (map (recorded numWords)) groups) \<and>
         rows t = map (\<lambda>seq. replicate (maxLen - length seq) 0 @
                              drop (length seq - maxLen) seq) sequences) \<and>
      dims t = [length (rows t), maxLen] \<and>
      (\<forall>row \<in> set (rows t). length row = maxLen \<and>
         (\<forall>e \<in> set row. e = 0 \<or> e = 2 \<or> e < numWords)))"
proof (intro conjI allI impI)
  show "(\<exists>t. loadFeatures fs filePath numWords maxLen = Inr t) \<longleftrightarrow>
      (\<exists>buffer. files fs filePath = Some buffer \<and> 4 dvd length buffer)"
    unfolding loadFeatures_unfold
    using loadFeatures_sequences_returns_iff [of _ numWords] by blast
next
  fix t
  assume "loadFeatures fs filePath numWords maxLen = Inr t"
  then obtain buffer sequences where f: "files fs filePath = Some buffer"
    and sq: "loadFeatures_sequences buffer numWords = Inr sequences"
    and t: "t = \<lparr>dims = [length sequences, maxLen], dtype = ''int32'',
           rows = map (\<lambda>seq. replicate (maxLen - length seq) 0 @
                               drop (length seq - maxLen) seq) sequences\<rparr>"
    unfolding loadFeatures_unfold by blast
  note cc = loadFeatures_sequences_concat [OF sq]
  show "\<exists>buffer sequences.
         files fs filePath = Some buffer \<and>
         loadFeatures_sequences buffer numWords = Inr sequences \<and>
         concat sequences =
           map (recorded numWords) (filter (\<lambda>v. v \<noteq> 1) (int32s buffer)) \<and>
         (\<forall>groups. int32s buffer = concat (map (\<lambda>g. 1 # g) groups) \<and>
                   (\<forall>g \<in> set groups. g \<noteq> [] \<and> 1 \<notin> set g) \<longrightarrow>
                   sequences = map (map (recorded numWords)) groups) \<and>
         rows t = map (\<lambda>seq. replicate (maxLen - length seq) 0 @
                              drop (length seq - maxLen) seq) sequences"
    using f sq cc loadFeatures_sequences_groups [OF sq] t
    by (intro exI [of _ buffer] exI [of _ sequences]) simp
  show "dims t = [length (rows t), maxLen]" by (simp add: t)
  show "\<forall>row \<in> set (rows t). length row = maxLen \<and>
         (\<forall>e \<in> set row. e = 0 \<or> e = 2 \<or> e < numWords)"
  proof (intro ballI conjI)
    fix row assume "row \<in> set (rows t)"
    then obtain seq where seq: "seq \<in> set sequences"
      and row: "row = replicate (maxLen - length seq) 0 @ drop (length seq - maxLen) seq"
      by (auto simp: t)
    show "length row = maxLen" by (simp add: row)
    fix e assume "e \<in> set row"
    then have "e = 0 \<or> e \<in> set seq" unfolding row by (auto dest: in_set_dropD)
    moreover
    { assume "e \<in> set seq"
      with seq have "e \<in> set (concat sequences)" by auto
      then have "e = 2 \<or> e < numWords" unfolding cc using recorded_cases by auto }
    ultimately show "e = 0 \<or> e = 2 \<or> e < numWords" by blast
  qed
qed

lemma replicate_two: "replicate 2 x = [x, x]"
  by (simp add: numeral_2_eq_2)

lemma loadFeatures_example: "loadFeatures example_fs ''imdb_train_data.bin'' 100 3 =
   Inr \<lparr>dims = [2, 3], dtype = ''int32'', rows = [[0, 5, 2], [0, 0, -1]]\<rparr>"
  by (simp add: example_fs_def loadFeatures_def readFileSync_def loadFeatures_sequences_def
      loadFeatures_loop.simps readInt32LE_def int32_of_bytes_def padSequences_def tf_tensor2d_def
      PAD_CHAR_def OOV_CHAR_def Let_def replicate_two)

theorem loadFeatures_entries_witness:
  "\<exists>t. loadFeatures example_fs ''imdb_train_data.bin'' 100 3 = Inr t \<and>
       dims t = [length (rows t), 3] \<and>
       list_all (\<lambda>row. length row = 3 \<and> list_all (\<lambda>e. e = 0 \<or> e = 2 \<or> e < 100) row) (rows t)"
proof -
  note main = loadFeatures_entries [of example_fs "''imdb_train_data.bin''" 100 3]
  have "files example_fs ''imdb_train_data.bin'' =
      Some [1, 0, 0, 0,  5, 0, 0, 0,  200, 0, 0, 0,  1, 0, 0, 0,  255, 255, 255, 255]"
    by (simp add: example_fs_def)
  moreover have "4 dvd length [1, 0, 0, 0,  5, 0, 0, 0,  200, 0, 0, 0,  1, 0, 0, 0,  255, 255, 255, 255 :: byte]"
    by (rule dvdI [of _ _ 5]) simp
  ultimately have ex: "\<exists>buffer. files example_fs ''imdb_train_data.bin'' = Some buffer \<and> 4 dvd length buffer"
    by blast
  from main [THEN conjunct1] ex
  obtain t where t: "loadFeatures example_fs ''imdb_train_data.bin'' 100 3 = Inr t"
    by blast
  from main [THEN conjunct2, rule_format, OF t, THEN conjunct2]
  have "dims t = [length (rows t), 3]"
    and "\<forall>row \<in> set (rows t). length row = 3 \<and> (\<forall>e \<in> set row. e = 0 \<or> e = 2 \<or> e < 100)"
    by blast+
  with t show ?thesis by (auto simp: list_all_iff)
qed

section \<open>Properties of loadData\<close>















section \<open>Properties of the test button\<close>

lemma testLoop_step:
  "testLoop (Suc fuel) sim (stateAfter sim k) k tr =
     (if terminalAt sim k
      then Some (stateAfter sim (Suc k), Suc k, tr @ stepEvents sim k)
      else testLoop fuel sim (stateAfter sim (Suc k)) (Suc k) (tr @ stepEvents sim k))"
  by (simp add: Let_def terminalAt_def actionAt_def stepEvents_def split: prod.splits)

lemma testLoop_run:
  "terminalAt sim n \<Longrightarrow> \<forall>j. k \<le> j \<and> j < n \<longrightarrow> \<not> terminalAt sim j \<Longrightarrow> k \<le> n \<Longrightarrow>
   n - k < fuel \<Longrightarrow>
   testLoop fuel sim (stateAfter sim k) k tr =
     Some (stateAfter sim (Suc n), Suc n, tr @ concat (map (stepEvents sim) [k..<Suc n]))"
proof (induction fuel arbitrary: k tr)
  case 0
  then show ?case by simp
next
  case (Suc fuel)
  show ?case
  proof (cases "k = n")
    case True
    with Suc.prems show ?thesis by (simp only: testLoop_step) simp
  next
    case False
    with Suc.prems have lt: "k < n" and nt: "\<not> terminalAt sim k" by auto
    from Suc.prems lt have "testLoop fuel sim (stateAfter sim (Suc k)) (Suc k) (tr @ stepEvents sim k) =
       Some (stateAfter sim (Suc n), Suc n,
             (tr @ stepEvents sim k) @ concat (map (stepEvents sim) [Suc k..<Suc n]))"
      by (intro Suc.IH) auto
    moreover from lt have "[k..<Suc n] = k # [Suc k..<Suc n]" by (simp add: upt_conv_Cons)
    ultimately show ?thesis using nt by (simp only: testLoop_step) simp
  qed
qed

lemma testLoop_Some:
  "testLoop fuel sim (stateAfter sim k) k tr = Some (c, steps, tr') \<Longrightarrow>
   \<exists>n\<ge>k. steps = Suc n \<and> terminalAt sim n \<and>
          (\<forall>j. k \<le> j \<and> j < n \<longrightarrow> \<not> terminalAt sim j) \<and> n - k < fuel"
proof (induction fuel arbitrary: k tr)
  case 0
  then show ?case by simp
next
  case (Suc fuel)
  show ?case
  proof (cases "terminalAt sim k")
    case True
    with Suc.prems have "steps = Suc k" by (simp only: testLoop_step) simp
    with True show ?thesis by (intro exI [of _ k]) auto
  next
    case False
    with Suc.prems have
      "testLoop fuel sim (stateAfter sim (Suc k)) (Suc k) (tr @ stepEvents sim k) = Some (c, steps, tr')"
      by (simp only: testLoop_step) simp
    from Suc.IH [OF this] obtain n where n: "Suc k \<le> n" "steps = Suc n" "terminalAt sim n"
      "\<forall>j. Suc k \<le> j \<and> j < n \<longrightarrow> \<not> terminalAt sim j" "n - Suc k < fuel" by blast
    from n(4) False have "\<forall>j. k \<le> j \<and> j < n \<longrightarrow> \<not> terminalAt sim j"
      by (metis Suc_leI le_neq_implies_less)
    with n show ?thesis by (intro exI [of _ n]) auto
  qed
qed

lemma updateResults_append: "updateResults (xs @ ys) = updateResults xs @ updateResults ys"
  by (induction xs rule: updateResults.induct) auto

lemma updateResults_steps:
  "updateResults (concat (map (stepEvents sim) ks)) = map (terminalAt sim) ks"
  by (induction ks) (auto simp: updateResults_append stepEvents_def)

lemma updateResults_episodeTrace:
  "firstTerminal sim n \<Longrightarrow> updateResults (episodeTrace sim n) = replicate n False @ [True]"
proof -
  assume f: "firstTerminal sim n"
  then have "map (terminalAt sim) [0..<n] = replicate n False"
    by (auto simp: firstTerminal_def intro!: nth_equalityI)
  moreover from f have "terminalAt sim n" by (simp add: firstTerminal_def)
  ultimately show ?thesis
    by (simp add: episodeTrace_def updateResults_append updateResults_steps stepEvents_def)
qed

text \<open>
  Claim C5. The handler of the test button runs one episode: it sets the cart-pole to a
  random state once, then picks the policy's action and calls \<^verbatim>\<open>update\<close> until
  \<^verbatim>\<open>update\<close> returns true, calls it no more after that, and reports the number of steps.
  The handler finishes exactly when the episode reaches a terminal state: if update number
  \<open>n\<close> is the first to return true, it reports \<open>n + 1\<close> steps.
\<close>

theorem testButton_runs_one_episode:
  "(\<forall>n fuel. firstTerminal sim n \<and> n < fuel \<longrightarrow>
       testButton_click fuel sim = Some (Suc n, episodeTrace sim n)) \<and>
   (\<forall>fuel steps trace. testButton_click fuel sim = Some (steps, trace) \<longrightarrow>
       (\<exists>n. steps = Suc n \<and> firstTerminal sim n \<and> trace = episodeTrace sim n \<and>
            updateResults trace = replicate n False @ [True] \<and>
            count_list trace SetRandomState = 1 \<and>
            take 2 trace = [DisableUI, SetRandomState] \<and>
            drop (length trace - 2) trace = [LogFinished steps, EnableUI]))"
proof (intro conjI allI impI)
  fix n fuel
  assume a: "firstTerminal sim n \<and> n < fuel"
  then have "testLoop fuel sim (stateAfter sim 0) 0 [DisableUI, SetRandomState] =
     Some (stateAfter sim (Suc n), Suc n,
           [DisableUI, SetRandomState] @ concat (map (stepEvents sim) [0..<Suc n]))"
    by (intro testLoop_run) (auto simp: firstTerminal_def)
  then show "testButton_click fuel sim = Some (Suc n, episodeTrace sim n)"
    by (simp add: testButton_click_def episodeTrace_def)
next
  fix fuel steps trace
  assume r: "testButton_click fuel sim = Some (steps, trace)"
  then obtain c tr where l: "testLoop fuel sim (stateAfter sim 0) 0 [DisableUI, SetRandomState] =
      Some (c, steps, tr)"
    by (auto simp: testButton_click_def split: option.splits)
  from testLoop_Some [OF l] obtain n where n: "steps = Suc n" "terminalAt sim n"
    "\<forall>j. j < n \<longrightarrow> \<not> terminalAt sim j" "n < fuel" by auto
  then have ft: "firstTerminal sim n" by (simp add: firstTerminal_def)
  have "testLoop fuel sim (stateAfter sim 0) 0 [DisableUI, SetRandomState] =
     Some (stateAfter sim (Suc n), Suc n,
           [DisableUI, SetRandomState] @ concat (map (stepEvents sim) [0..<Suc n]))"
    using n by (intro testLoop_run) auto
  with r have tr: "trace = episodeTrace sim n"
    by (auto simp: testButton_click_def episodeTrace_def simp del: upt_Suc)
  have cnt: "count_list (concat (map (stepEvents sim) ks)) SetRandomState = 0" for ks
    by (induction ks) (auto simp: stepEvents_def)
  have c1: "count_list (episodeTrace sim n) SetRandomState = 1"
    unfolding episodeTrace_def by (simp add: cnt del: upt_Suc)
  have d: "drop (length (episodeTrace sim n) - 2) (episodeTrace sim n) = [LogFinished (Suc n), EnableUI]"
    unfolding episodeTrace_def by (simp del: upt_Suc)
  show "\<exists>n. steps = Suc n \<and> firstTerminal sim n \<and> trace = episodeTrace sim n \<and>
            updateResults trace = replicate n False @ [True] \<and>
            count_list trace SetRandomState = 1 \<and>
            take 2 trace = [DisableUI, SetRandomState] \<and>
            drop (length trace - 2) trace = [LogFinished steps, EnableUI]"
    using n(1) ft tr updateResults_episodeTrace [OF ft] c1 d
    by (intro exI [of _ n]) (simp add: episodeTrace_def)
qed

lemma example_states:
  "stateAfter example_sim 0 = 0" "stateAfter example_sim (Suc 0) = 1"
  "stateAfter example_sim (Suc (Suc 0)) = 2"
  by (simp_all add: example_sim_def)

lemma example_terminal:
  "\<not> terminalAt example_sim 0" "\<not> terminalAt example_sim (Suc 0)"
  "terminalAt example_sim (Suc (Suc 0))"
  by (simp_all add: terminalAt_def example_states) (simp_all add: example_sim_def)

lemma example_firstTerminal: "firstTerminal example_sim 2"
  by (simp add: firstTerminal_def numeral_2_eq_2 less_Suc_eq example_terminal)

lemma example_trace:
  "episodeTrace example_sim 2 =
     [DisableUI, SetRandomState,
      LogProgress 1 1, Update 1 False, Render, NextFrame,
      LogProgress 1 2, Update 1 False, Render, NextFrame,
      LogProgress 1 3, Update 1 True, Render, NextFrame,
      LogFinished 3, EnableUI]"
proof -
  have a: "actionAt example_sim k = 1" for k by (simp add: actionAt_def example_sim_def)
  have "[0..<Suc 2] = [0, Suc 0, Suc (Suc 0)]" by (simp add: numeral_2_eq_2)
  then show ?thesis
    by (simp add: episodeTrace_def stepEvents_def a example_terminal)
qed

theorem testButton_runs_one_episode_witness:
  "testButton_click 10 example_sim =
     Some (3, [DisableUI, SetRandomState,
      LogProgress 1 1, Update 1 False, Render, NextFrame,
      LogProgress 1 2, Update 1 False, Render, NextFrame,
      LogProgress 1 3, Update 1 True, Render, NextFrame,
      LogFinished 3, EnableUI]) \<and>
   (\<exists>steps trace. testButton_click 10 example_sim = Some (steps, trace) \<and>
      updateResults trace = [False, False, True])"
proof -
  note main = testButton_runs_one_episode [of example_sim]
  from main [THEN conjunct1, rule_format, of 2 10] example_firstTerminal
  have r: "testButton_click 10 example_sim = Some (Suc 2, episodeTrace example_sim 2)" by simp
  from main [THEN conjunct2, rule_format, OF r]
  have "updateResults (episodeTrace example_sim 2) = [False, False, True]"
    by (auto simp: numeral_2_eq_2)
  with r show ?thesis by (simp add: example_trace)
qed

section \<open>Properties of the date-conversion front end\<close>

text \<open>
  Claim C8. When the trimmed, uppercased input has fewer than 6 characters, the handler
  sets the output field to the empty string and runs no inference. Otherwise it runs one
  inference, on the trimmed, uppercased input cut to its first \<^verbatim>\<open>INPUT_LENGTH\<close>
  characters when it is longer than that. This holds whatever \<^verbatim>\<open>trim\<close> and
  \<^verbatim>\<open>toUpperCase\<close> make of the input.
\<close>

theorem inputDateString_change_short_and_long:
  "(length (String_toUpperCase env (String_trim env v)) < 6 \<longrightarrow>
      inputDateString_change env v pg = pg\<lparr>outputDateString_value := []\<rparr> \<and>
      outputDateString_value (inputDateString_change env v pg) = [] \<and>
      inferences (inputDateString_change env v pg) = inferences pg) \<and>
   (6 \<le> length (String_toUpperCase env (String_trim env v)) \<longrightarrow>
      inferences (inputDateString_change env v pg) =
        inferences pg @
          [take (INPUT_LENGTH env) (String_toUpperCase env (String_trim env v))] \<and>
      (INPUT_LENGTH env < length (String_toUpperCase env (String_trim env v)) \<longrightarrow>
         length (last (inferences (inputDateString_change env v pg))) = INPUT_LENGTH env))"
  by (auto simp: inputDateString_change_def Let_def split: sum.splits option.splits prod.splits)

lemma example_long_input:
  "String_toUpperCase example_date_env (String_trim example_date_env ''  January 18, 2019  '') =
     ''JANUARY 18, 2019''"
  by (simp add: example_date_env_def)

lemma example_short_input:
  "String_toUpperCase example_date_env (String_trim example_date_env '' jan '') = ''JAN''"
  by (simp add: example_date_env_def)

theorem inputDateString_change_short_and_long_witness:
  "inputDateString_change example_date_env '' jan '' example_page =
     example_page\<lparr>outputDateString_value := []\<rparr> \<and>
   inferences (inputDateString_change example_date_env ''  January 18, 2019  '' example_page) =
     [''JANUARY 18, '']"
  using inputDateString_change_short_and_long
          [of example_date_env "'' jan ''" example_page]
        inputDateString_change_short_and_long
          [of example_date_env "''  January 18, 2019  ''" example_page]
  by (simp add: example_long_input example_short_input)
     (simp add: example_date_env_def example_page_def)

section \<open>Properties of the train button\<close>

lemma num_gt_parseInt:
  "num_gt (number_of_parseInt x) (of_int c) \<longleftrightarrow> (\<exists>n>c. x = Some n)"
  by (cases x) (simp_all add: number_of_parseInt_def)

lemma num_gt_parseInt_0: "num_gt (number_of_parseInt x) 0 \<longleftrightarrow> (\<exists>n>0. x = Some n)"
  using num_gt_parseInt [of x 0] by simp

lemma num_gt_parseInt_1: "num_gt (number_of_parseInt x) 1 \<longleftrightarrow> (\<exists>n>1. x = Some n)"
  using num_gt_parseInt [of x 1] by simp

lemma between_0_1: "num_gt d 0 \<and> num_lt d 1 \<longleftrightarrow> (\<exists>r. 0 < r \<and> r < 1 \<and> d = Finite r)"
  by (cases d) auto

lemma trainButton_try_invalid:
  assumes "\<not> hyperparameters_ok env st"
  shows "\<exists>what v. trainButton_try env st = (Some [Lit what, Subst v], st) \<and> prefix ''Invalid'' what"
proof -
  from assms consider "\<not> iterations_ok env st"
    | "iterations_ok env st" "\<not> games_ok env st"
    | "iterations_ok env st" "games_ok env st" "\<not> maxSteps_ok env st"
    | "iterations_ok env st" "games_ok env st" "maxSteps_ok env st" "\<not> discount_ok env st"
    by (auto simp: hyperparameters_ok_def)
  then show ?thesis
  proof cases
    case 1
    then show ?thesis
      by (simp add: trainButton_try_def Let_def num_gt_parseInt_0 iterations_ok_def)
  next
    case 2
    then show ?thesis
      by (simp add: trainButton_try_def Let_def num_gt_parseInt_0 iterations_ok_def games_ok_def)
  next
    case 3
    then show ?thesis
      by (simp add: trainButton_try_def Let_def num_gt_parseInt_0 num_gt_parseInt_1
          iterations_ok_def games_ok_def maxSteps_ok_def)
  next
    case 4
    then show ?thesis
      by (simp add: trainButton_try_def Let_def num_gt_parseInt_0 num_gt_parseInt_1 between_0_1
          iterations_ok_def games_ok_def maxSteps_ok_def discount_ok_def)
  qed
qed

lemma trainLoop_trains:
  assumes "\<forall>i d g m. \<exists>gs. policyNet_train env i d g m = Inr gs"
  shows "policyNet_present st \<Longrightarrow>
         \<exists>st'. trainLoop env k i tot d g m st = (None, st') \<and> policyNet_present st' \<and>
               saveCalls st' = saveCalls st \<and>
               trainCalls st' = trainCalls st @ [i..<i + k]"
proof (induction k arbitrary: i st)
  case 0
  then show ?case by simp
next
  case (Suc k)
  from assms obtain gs where gs: "policyNet_train env i d g m = Inr gs" by blast
  let ?st3 = "onIterationEnd (i + 1) tot
     (st\<lparr>trainCalls := trainCalls st @ [i],
         meanStepValues := meanStepValues st @ [(i + 1, mean env gs)]\<rparr>)"
  have p: "policyNet_present ?st3" using Suc.prems by (simp add: onIterationEnd_def)
  from Suc.IH [OF p, of "i + 1"] obtain st' where
    "trainLoop env k (i + 1) tot d g m ?st3 = (None, st')" "policyNet_present st'"
    "saveCalls st' = saveCalls ?st3" "trainCalls st' = trainCalls ?st3 @ [i + 1..<i + 1 + k]"
    by blast
  then show ?case using Suc.prems gs
    by (simp add: Let_def onIterationEnd_def upt_conv_Cons)
qed

text \<open>
  Claim C9. The handler of the train button checks the hyperparameters before it trains.
  When the number of iterations is not greater than 0, or the games per iteration are not
  greater than 0, or the maximal steps per game are not greater than 1, or the discount
  rate is not strictly between 0 and 1, it reports an error and neither trains nor saves
  the network. With valid hyperparameters, a policy network and a training that does not
  throw, it trains for the given number of iterations. In every case the three buttons
  are enabled when the handler finishes.
\<close>

theorem trainButton_click_validates:
  "(\<not> trainButton_disabled (trainButton_click env st) \<and>
    \<not> testButton_disabled (trainButton_click env st) \<and>
    \<not> deleteStoredModelButton_disabled (trainButton_click env st)) \<and>
   (\<not> hyperparameters_ok env st \<longrightarrow>
      trainCalls (trainButton_click env st) = trainCalls st \<and>
      saveCalls (trainButton_click env st) = saveCalls st \<and>
      (\<exists>what v. appStatus (trainButton_click env st) = [Lit ''ERROR: '', Lit what, Subst v] \<and>
                prefix ''Invalid'' what)) \<and>
   (hyperparameters_ok env st \<and> policyNet_present st \<and>
    (\<forall>i d g m. \<exists>gs. policyNet_train env i d g m = Inr gs) \<longrightarrow>
      trainCalls (trainButton_click env st) =
        trainCalls st @ [0..<nat (the (Number_parseInt env (numIterationsInput_value st)))] \<and>
      saveCalls (trainButton_click env st) = saveCalls st + 1)"
proof (intro conjI impI)
  show "\<not> trainButton_disabled (trainButton_click env st)"
    "\<not> testButton_disabled (trainButton_click env st)"
    "\<not> deleteStoredModelButton_disabled (trainButton_click env st)"
    by (simp_all add: trainButton_click_def enableUI_def split: prod.splits option.splits)
next
  assume "\<not> hyperparameters_ok env st"
  then have "\<not> hyperparameters_ok env (disableUI st)"
    by (simp add: hyperparameters_ok_def iterations_ok_def games_ok_def maxSteps_ok_def
        discount_ok_def disableUI_def)
  from trainButton_try_invalid [OF this] obtain what v where
    t: "trainButton_try env (disableUI st) = (Some [Lit what, Subst v], disableUI st)"
    and p: "prefix ''Invalid'' what" by blast
  from t show "trainCalls (trainButton_click env st) = trainCalls st"
    by (simp add: trainButton_click_def enableUI_def logStatus_def disableUI_def)
  from t show "saveCalls (trainButton_click env st) = saveCalls st"
    by (simp add: trainButton_click_def enableUI_def logStatus_def disableUI_def)
  from t p show "\<exists>what v. appStatus (trainButton_click env st) =
      [Lit ''ERROR: '', Lit what, Subst v] \<and> prefix ''Invalid'' what"
    by (simp add: trainButton_click_def enableUI_def logStatus_def)
next
  assume a: "hyperparameters_ok env st \<and> policyNet_present st \<and>
    (\<forall>i d g m. \<exists>gs. policyNet_train env i d g m = Inr gs)"
  then obtain n g m r where n: "0 < n" "Number_parseInt env (numIterationsInput_value st) = Some n"
    and g: "0 < g" "Number_parseInt env (gamesPerIterationInput_value st) = Some g"
    and m: "1 < m" "Number_parseInt env (maxStepsPerGameInput_value st) = Some m"
    and r: "0 < r" "r < 1" "Number_parseFloat env (discountRateInput_value st) = Finite r"
    by (auto simp: hyperparameters_ok_def iterations_ok_def games_ok_def maxSteps_ok_def
        discount_ok_def)
  let ?st3 = "onIterationEnd 0 n ((logStatus [Lit ''Training policy network... Please wait. Network will be saved to IndexedDB when training is complete.''] (disableUI st))\<lparr>meanStepValues := []\<rparr>)"
  have p: "policyNet_present ?st3" using a by (simp add: onIterationEnd_def logStatus_def disableUI_def)
  from a have tr: "\<forall>i d g m. \<exists>gs. policyNet_train env i d g m = Inr gs" by blast
  from trainLoop_trains [OF tr p, of "nat n" 0 n "Finite r" g m] obtain st4 where
    l: "trainLoop env (nat n) 0 n (Finite r) g m ?st3 = (None, st4)" and p4: "policyNet_present st4"
    and s4: "saveCalls st4 = saveCalls ?st3" and c4: "trainCalls st4 = trainCalls ?st3 @ [0..<nat n]"
    by auto
  have t: "\<exists>e st'. trainButton_try env (disableUI st) = (e, st') \<and>
      trainCalls st' = trainCalls st4 \<and> saveCalls st' = saveCalls st4 + 1"
    using n g m r l p4
    by (simp add: trainButton_try_def Let_def number_of_parseInt_def disableUI_def
        updateLocallyStoredModelStatus_def logStatus_def split: option.splits)
  then obtain e st' where t': "trainButton_try env (disableUI st) = (e, st')"
    and c': "trainCalls st' = trainCalls st4" and s': "saveCalls st' = saveCalls st4 + 1" by blast
  from t' c' c4 n show "trainCalls (trainButton_click env st) =
        trainCalls st @ [0..<nat (the (Number_parseInt env (numIterationsInput_value st)))]"
    by (simp add: trainButton_click_def enableUI_def logStatus_def onIterationEnd_def disableUI_def
        split: option.splits)
  from t' s' s4 show "saveCalls (trainButton_click env st) = saveCalls st + 1"
    by (simp add: trainButton_click_def enableUI_def logStatus_def onIterationEnd_def disableUI_def
        split: option.splits)
qed

lemma example_app_ok: "hyperparameters_ok example_train_env example_app"
proof -
  have "discount_ok example_train_env example_app"
    unfolding discount_ok_def
    by (intro exI [of _ "0.95"]) (simp add: example_train_env_def example_app_def)
  then show ?thesis
    by (simp add: hyperparameters_ok_def iterations_ok_def games_ok_def maxSteps_ok_def
        example_train_env_def example_app_def)
qed

lemma example_app_invalid:
  "\<not> hyperparameters_ok example_train_env (example_app\<lparr>numIterationsInput_value := ''0''\<rparr>)"
  by (simp add: hyperparameters_ok_def iterations_ok_def example_train_env_def example_app_def)

theorem trainButton_click_validates_witness:
  "trainCalls (trainButton_click example_train_env
      (example_app\<lparr>numIterationsInput_value := ''0''\<rparr>)) = [] \<and>
   \<not> trainButton_disabled (trainButton_click example_train_env
      (example_app\<lparr>numIterationsInput_value := ''0''\<rparr>)) \<and>
   trainCalls (trainButton_click example_train_env example_app) = [0, 1] \<and>
   \<not> trainButton_disabled (trainButton_click example_train_env example_app)"
proof -
  note bad = trainButton_click_validates
    [of example_train_env "example_app\<lparr>numIterationsInput_value := ''0''\<rparr>"]
  note good = trainButton_click_validates [of example_train_env example_app]
  have tr: "\<forall>i d g m. \<exists>gs. policyNet_train example_train_env i d g m = Inr gs"
    by (simp add: example_train_env_def)
  have p: "policyNet_present example_app" by (simp add: example_app_def)
  have n: "nat (the (Number_parseInt example_train_env (numIterationsInput_value example_app))) = 2"
    by (simp add: example_train_env_def example_app_def)
  have u: "[0..<2] = [0, Suc 0]" by (simp add: numeral_2_eq_2)
  from bad example_app_invalid
  have b: "trainCalls (trainButton_click example_train_env
      (example_app\<lparr>numIterationsInput_value := ''0''\<rparr>)) = []"
    by (simp add: example_app_def)
  from good example_app_ok tr p n u
  have g: "trainCalls (trainButton_click example_train_env example_app) = [0, 1]"
    by (simp add: example_app_def)
  from b g bad good show ?thesis by simp
qed

section \<open>Properties of train-rnn.js\<close>

lemma parseArguments_parser: "parseArguments given = parseArgs the_parser given"
  by (simp add: parseArguments_def addArgument_def the_parser_def Let_def)

lemma find_lookBack:
  "find (\<lambda>a. arg_name a = ''lookBack'') the_parser =
     Some \<lparr>arg_name = ''lookBack'', arg_type = TypeInt, arg_action = Store,
           defaultValue = Some (number (10 * 24 * 6))\<rparr>"
  by (simp add: the_parser_def)

lemma find_step:
  "find (\<lambda>a. arg_name a = ''step'') the_parser =
     Some \<lparr>arg_name = ''step'', arg_type = TypeInt, arg_action = Store,
           defaultValue = Some (number 6)\<rparr>"
  by (simp add: the_parser_def)

lemma parseArguments_defaults:
  "\<exists>args. parseArguments [] = Inr args \<and>
     args ''lookBack'' = Some (number 1440) \<and> args ''step'' = Some (number 6) \<and>
     args ''delay'' = Some (number 144) \<and> args ''batchSize'' = Some (number 128) \<and>
     args ''epochs'' = Some (number 20)"
  by (simp add: parseArguments_parser parseArgs_def the_parser_def default_of_def)

lemma isInteger_int_value: "Number_isInteger v \<Longrightarrow> \<exists>n. v = int_value n"
proof -
  assume a: "Number_isInteger v"
  then obtain r where v: "v = JNumber (Finite r)" and i: "of_int \<lfloor>r\<rfloor> = r"
    by (cases v rule: Number_isInteger.cases) auto
  have "v = int_value \<lfloor>r\<rfloor>" by (simp only: v int_value_def i)
  then show ?thesis ..
qed

lemma parseArgs_int_argument:
  assumes "parseArgs parser given = Inr args"
    and "find (\<lambda>a. arg_name a = name) parser = Some a"
    and "arg_type a = TypeInt" and "arg_action a = Store"
    and "\<exists>n. default_of a = int_value n"
  shows "\<exists>n. property args name = int_value n"
proof (cases "map_of (rev given) name")
  case None
  with assms show ?thesis
    by (auto simp: parseArgs_def property_def split: if_splits)
next
  case (Some v)
  then have "(name, v) \<in> set (rev given)" by (rule map_of_SomeD)
  then have "(name, v) \<in> set given" by simp
  with assms(1) have "case find (\<lambda>a. arg_name a = name) parser of
                None \<Rightarrow> False | Some a \<Rightarrow> accepts a v"
    by (auto simp: parseArgs_def list_all_iff split: if_splits)
  with assms have "Number_isInteger v" by (simp add: accepts_def)
  from isInteger_int_value [OF this] obtain n where "v = int_value n" ..
  moreover from assms Some have "property args name = v"
    by (auto simp: parseArgs_def property_def split: if_splits)
  ultimately show ?thesis by blast
qed

lemma floor_exact_quotient:
  "Math_floor (Finite (of_int lookBack / of_int step)) = Finite (of_int (lookBack div step))"
  by (simp add: floor_divide_of_int_eq)

text \<open>
  Claim C10. \<^verbatim>\<open>main\<close> parses the command line, where the defaults are
  \<open>lookBack = 1440\<close>, \<open>step = 6\<close>, \<open>delay = 144\<close>, \<open>batchSize = 128\<close> and
  \<open>epochs = 20\<close>, and calls \<^verbatim>\<open>buildModel\<close> once, with
  \<^verbatim>\<open>Math.floor(lookBack / step)\<close> time steps and as many features as the loaded data
  has column names. Both operands of the division are integers, and where the division
  is exact the number of time steps is the integer quotient.
\<close>

theorem main_buildModel_arguments:
  "(\<exists>args. parseArguments [] = Inr args \<and>
      args ''lookBack'' = Some (number 1440) \<and> args ''step'' = Some (number 6) \<and>
      args ''delay'' = Some (number 144) \<and> args ''batchSize'' = Some (number 128) \<and>
      args ''epochs'' = Some (number 20)) \<and>
   (\<forall>args columnNames.
      parseArguments (argv env) = Inr args \<and> load env = Inr columnNames \<longrightarrow>
      (\<exists>trace. main env = Inr trace \<and>
         buildModelCalls trace =
           [(property args ''modelType'',
             Math_floor (quotient env (property args ''lookBack'') (property args ''step'')),
             length columnNames)]) \<and>
      (\<exists>lookBack step.
         property args ''lookBack'' = int_value lookBack \<and>
         property args ''step'' = int_value step \<and>
         (quotient env (int_value lookBack) (int_value step) =
            Finite (of_int lookBack / of_int step) \<longrightarrow>
          Math_floor (quotient env (property args ''lookBack'') (property args ''step'')) =
            Finite (of_int (lookBack div step)))))"
proof (intro conjI allI impI)
  show "\<exists>args. parseArguments [] = Inr args \<and>
      args ''lookBack'' = Some (number 1440) \<and> args ''step'' = Some (number 6) \<and>
      args ''delay'' = Some (number 144) \<and> args ''batchSize'' = Some (number 128) \<and>
      args ''epochs'' = Some (number 20)"
    by (rule parseArguments_defaults)
next
  fix args columnNames
  assume a: "parseArguments (argv env) = Inr args \<and> load env = Inr columnNames"
  then show "\<exists>trace. main env = Inr trace \<and>
         buildModelCalls trace =
           [(property args ''modelType'',
             Math_floor (quotient env (property args ''lookBack'') (property args ''step'')),
             length columnNames)]"
    by (simp add: main_def Let_def)
  from a have p: "parseArgs the_parser (argv env) = Inr args"
    by (simp add: parseArguments_parser)
  have "\<exists>n. number (10 * 24 * 6) = int_value n"
    by (intro exI [of _ 1440]) (simp add: number_def int_value_def)
  with parseArgs_int_argument [OF p find_lookBack]
  obtain lookBack where lb: "property args ''lookBack'' = int_value lookBack"
    by (auto simp: default_of_def)
  have "\<exists>n. number 6 = int_value n"
    by (intro exI [of _ 6]) (simp add: number_def int_value_def)
  with parseArgs_int_argument [OF p find_step]
  obtain step where st: "property args ''step'' = int_value step"
    by (auto simp: default_of_def)
  have "quotient env (int_value lookBack) (int_value step) =
            Finite (of_int lookBack / of_int step) \<longrightarrow>
          Math_floor (quotient env (property args ''lookBack'') (property args ''step'')) =
            Finite (of_int (lookBack div step))"
    unfolding lb st
  proof
    assume e: "quotient env (int_value lookBack) (int_value step) =
            Finite (of_int lookBack / of_int step)"
    show "Math_floor (quotient env (int_value lookBack) (int_value step)) =
            Finite (of_int (lookBack div step))"
      unfolding e by (rule floor_exact_quotient)
  qed
  with lb st
  show "\<exists>lookBack step.
         property args ''lookBack'' = int_value lookBack \<and>
         property args ''step'' = int_value step \<and>
         (quotient env (int_value lookBack) (int_value step) =
            Finite (of_int lookBack / of_int step) \<longrightarrow>
          Math_floor (quotient env (property args ''lookBack'') (property args ''step'')) =
            Finite (of_int (lookBack div step)))"
    by blast
qed

theorem main_buildModel_arguments_witness:
  "\<exists>trace. main example_weather_env = Inr trace \<and>
     buildModelCalls trace = [(JString ''gru'', Finite 20, 3)]"
proof -
  have ok: "list_all (\<lambda>(name, v).
              case find (\<lambda>a. arg_name a = name) the_parser of
                None \<Rightarrow> False
              | Some a \<Rightarrow> accepts a v) (argv example_weather_env)"
    by (simp add: the_parser_def example_weather_env_def accepts_def number_def)
  let ?args = "\<lambda>name. case find (\<lambda>a. arg_name a = name) the_parser of None \<Rightarrow> None
            | Some a \<Rightarrow> (case map_of (rev (argv example_weather_env)) name of
                 Some v \<Rightarrow> Some v | None \<Rightarrow> Some (default_of a))"
  have d: "parseArgs the_parser (argv example_weather_env) = Inr ?args"
    using ok by (simp add: parseArgs_def)
  have l: "load example_weather_env = Inr [''p (mbar)'', ''T (degC)'', ''rho (g/m**3)'']"
    by (simp add: example_weather_env_def)
  have v: "property ?args ''modelType'' = JString ''gru''"
    "property ?args ''lookBack'' = number 100" "property ?args ''step'' = number 5"
    by (simp_all add: property_def the_parser_def example_weather_env_def default_of_def)
  have f: "Math_floor (quotient example_weather_env (number 100) (number 5)) = Finite 20"
    by (simp add: example_weather_env_def)
  from main_buildModel_arguments [of example_weather_env, THEN conjunct2, rule_format,
      of ?args "[''p (mbar)'', ''T (degC)'', ''rho (g/m**3)'']", THEN conjunct1]
    d l
  show ?thesis by (simp add: parseArguments_parser v f numeral_3_eq_3)
qed

section \<open>Properties of quantize_evaluate.sh\<close>

lemma run_commands_prefix: "prefix (fst (run_commands ok cs)) cs"
  by (induction cs) (auto split: prod.splits)

lemma run_commands_done: "snd (run_commands ok cs) \<Longrightarrow> fst (run_commands ok cs) = cs"
  by (induction cs) (auto split: prod.splits if_splits)

lemma steps_of_commands:
  "filter is_conversion_or_evaluation (quantize_and_evaluate_commands MODEL_NAME VENV_DIR) =
     expected_steps MODEL_NAME"
  by (simp add: quantize_and_evaluate_commands_def expected_steps_def Let_def)

lemma no_steps_in_echo:
  "prefix cs' cs \<Longrightarrow> list_all (\<lambda>c. \<not> is_conversion_or_evaluation c) cs \<Longrightarrow>
   filter is_conversion_or_evaluation cs' = []"
  by (auto simp: prefix_def list_all_iff filter_empty_conv)

text \<open>
  Claim C4. The weights are quantized by the external converter, which the script
  invokes: \<^verbatim>\<open>tensorflowjs_converter\<close> with \<^verbatim>\<open>--quantization_bytes 2\<close> for the 16-bit model
  and with \<^verbatim>\<open>--quantization_bytes 1\<close> for the 8-bit model; then the model is evaluated at
  full precision, with 16-bit and with 8-bit quantization, in that order. Every run keeps
  to this order as far as it gets, and a run that reaches the end has made exactly these
  five steps.
\<close>

theorem quantize_evaluate_steps:
  "prefix (filter is_conversion_or_evaluation (fst (quantize_evaluate env)))
          (expected_steps (arg1 env)) \<and>
   (snd (quantize_evaluate env) \<longrightarrow>
      filter is_conversion_or_evaluation (fst (quantize_evaluate env)) =
        expected_steps (arg1 env))"
proof -
  let ?ok = "succeeds env"
  have echo: "filter is_conversion_or_evaluation (fst (run_commands ?ok cs)) = []"
    if "list_all (\<lambda>c. \<not> is_conversion_or_evaluation c) cs" for cs
    using run_commands_prefix [of ?ok cs] that by (rule no_steps_in_echo)
  consider (usage) "arg1 env = []"
    | (nofile) "arg1 env \<noteq> []" "\<not> is_file env (''models/'' @ arg1 env @ ''/original'' @ ''/model.json'')"
    | (nopip) "arg1 env \<noteq> []" "is_file env (''models/'' @ arg1 env @ ''/original'' @ ''/model.json'')"
        "which env ''pip'' = []"
    | (go) "arg1 env \<noteq> []" "is_file env (''models/'' @ arg1 env @ ''/original'' @ ''/model.json'')"
        "which env ''pip'' \<noteq> []"
    by blast
  then show ?thesis
  proof cases
    case usage
    then show ?thesis by (simp add: quantize_evaluate_def echo)
  next
    case nofile
    then show ?thesis by (simp add: quantize_evaluate_def Let_def echo)
  next
    case nopip
    then show ?thesis by (simp add: quantize_evaluate_def Let_def echo)
  next
    case go
    let ?install = "if which env ''virtualenv'' = []
                    then [Echo ''Installing virtualenv...'', Pip_install ''virtualenv'']
                    else []"
    obtain started d where i: "run_commands ?ok ?install = (started, d)"
      by (cases "run_commands ?ok ?install")
    have "filter is_conversion_or_evaluation (fst (run_commands ?ok ?install)) = []"
      by (rule echo) simp
    with i have s0: "filter is_conversion_or_evaluation started = []" by simp
    show ?thesis
    proof (cases d)
      case False
      with go i s0 show ?thesis by (simp add: quantize_evaluate_def Let_def)
    next
      case True
      show ?thesis
      proof (cases "mktemp_d env")
        case None
        with go i s0 True show ?thesis by (simp add: quantize_evaluate_def Let_def)
      next
        case (Some dir)
        let ?cs = "quantize_and_evaluate_commands (arg1 env) (dir @ ''_venv'')"
        obtain started' d' where r: "run_commands ?ok ?cs = (started', d')"
          by (cases "run_commands ?ok ?cs")
        from go i True Some r have q: "quantize_evaluate env = (started @ [Mktemp_d] @ started', d')"
          by (simp add: quantize_evaluate_def Let_def)
        from run_commands_prefix [of ?ok ?cs] r have "prefix started' ?cs" by simp
        then have p: "prefix (filter is_conversion_or_evaluation started') (expected_steps (arg1 env))"
          using filter_mono_prefix [of started' ?cs is_conversion_or_evaluation]
          by (simp add: steps_of_commands)
        from run_commands_done [of ?ok ?cs] r have "d' \<Longrightarrow> started' = ?cs" by simp
        then have e: "d' \<Longrightarrow> filter is_conversion_or_evaluation started' = expected_steps (arg1 env)"
          by (simp add: steps_of_commands)
        from q s0 p e show ?thesis by simp
      qed
    qed
  qed
qed

lemma example_run_done: "snd (quantize_evaluate example_shell_env)"
  by (simp add: quantize_evaluate_def example_shell_env_def quantize_and_evaluate_commands_def
      Let_def)

theorem quantize_evaluate_steps_witness:
  "filter is_conversion_or_evaluation (fst (quantize_evaluate example_shell_env)) =
     [Tensorflowjs_converter ''tfjs_layers_model'' ''tfjs_layers_model'' 2
        ''models/mnist/original/model.json'' ''models/mnist/quantized-16bit'',
      Tensorflowjs_converter ''tfjs_layers_model'' ''tfjs_layers_model'' 1
        ''models/mnist/original/model.json'' ''models/mnist/quantized-8bit'',
      Yarn [''eval-mnist'', ''models/mnist/original/model.json''],
      Yarn [''eval-mnist'', ''models/mnist/quantized-16bit/model.json''],
      Yarn [''eval-mnist'', ''models/mnist/quantized-8bit/model.json'']]"
  using quantize_evaluate_steps [of example_shell_env] example_run_done
  by (simp add: expected_steps_def) (simp add: example_shell_env_def)

end
